theory Spec2Isabelle
  imports Main "HOL-Library.Word" "HOL-Library.Sublist"
begin

section \<open>JavaScript string primitives used by the server\<close>

text \<open>
  Strings are lists of characters. The functions below model the built-in string and
  number operations that \<^verbatim>\<open>server/routes.ts\<close> calls; each one is executable.
\<close>

type_synonym byte = "8 word"

text \<open>\<^verbatim>\<open>str.split(sep)\<close> for a one-character separator: the empty string gives one
  empty part, and a trailing separator gives a trailing empty part.\<close>

fun split_on :: "char \<Rightarrow> string \<Rightarrow> string list" where
  "split_on sep [] = [[]]"
| "split_on sep (c # cs) =
     (if c = sep then [] # split_on sep cs
      else (case split_on sep cs of
              [] \<Rightarrow> [[c]]
            | p # ps \<Rightarrow> (c # p) # ps))"

text \<open>Position of the first occurrence of an element in a list.\<close>

fun index_of :: "'a \<Rightarrow> 'a list \<Rightarrow> nat option" where
  "index_of c [] = None"
| "index_of c (x # xs) = (if x = c then Some 0 else map_option Suc (index_of c xs))"

definition is_digit :: "char \<Rightarrow> bool" where
  "is_digit c = (c \<in> set ''0123456789'')"

definition digit_val :: "char \<Rightarrow> nat" where
  "digit_val c = (case index_of c ''0123456789'' of None \<Rightarrow> 0 | Some d \<Rightarrow> d)"

definition digit_char :: "nat \<Rightarrow> char" where
  "digit_char d = ''0123456789'' ! d"

definition lower_char :: "char \<Rightarrow> char" where
  "lower_char c =
     (case map_of (zip ''ABCDEFGHIJKLMNOPQRSTUVWXYZ'' ''abcdefghijklmnopqrstuvwxyz'') c of
        None \<Rightarrow> c
      | Some l \<Rightarrow> l)"

definition is_hex_digit :: "char \<Rightarrow> bool" where
  "is_hex_digit c = (c \<in> set ''0123456789abcdefABCDEF'')"

definition hex_val :: "char \<Rightarrow> nat" where
  "hex_val c = (case index_of (lower_char c) ''0123456789abcdef'' of None \<Rightarrow> 0 | Some d \<Rightarrow> d)"

text \<open>The ASCII members of the white space that \<^verbatim>\<open>parseInt\<close> skips. A part with
  leading white space never equals its own \<^verbatim>\<open>toString\<close>, so the non-ASCII members do
  not change any result below.\<close>

definition js_whitespace :: "char \<Rightarrow> bool" where
  "js_whitespace c = (c \<in> {CHR '' '', CHR 0x09, CHR 0x0A, CHR 0x0B, CHR 0x0C, CHR 0x0D})"

definition digits_value :: "string \<Rightarrow> nat" where
  "digits_value ds = foldl (\<lambda>acc c. acc * 10 + digit_val c) 0 ds"

definition hex_digits_value :: "string \<Rightarrow> nat" where
  "hex_digits_value ds = foldl (\<lambda>acc c. acc * 16 + hex_val c) 0 ds"

text \<open>The optional sign that \<^verbatim>\<open>parseInt\<close> reads after the white space.\<close>

definition strip_sign :: "string \<Rightarrow> bool \<times> string" where
  "strip_sign t =
     (case t of
        [] \<Rightarrow> (False, t)
      | c # r \<Rightarrow>
          if c = CHR ''-'' then (True, r)
          else if c = CHR ''+'' then (False, r)
          else (False, t))"

text \<open>\<^verbatim>\<open>parseInt(s, 10)\<close>: white space, an optional sign, then the longest run of
  decimal digits; \<open>None\<close> is NaN. The result is an exact integer here; the source's
  double loses precision only above \<open>2^53\<close>, far from every bound it is compared with.\<close>

definition parseInt10 :: "string \<Rightarrow> int option" where
  "parseInt10 s =
     (let (neg, u) = strip_sign (dropWhile js_whitespace s);
          ds = takeWhile is_digit u
      in if ds = [] then None
         else Some ((if neg then - 1 else 1) * int (digits_value ds)))"

text \<open>\<^verbatim>\<open>parseInt(s)\<close> with no radix: a \<^verbatim>\<open>0x\<close> or \<^verbatim>\<open>0X\<close> prefix selects base 16.\<close>

definition parseInt :: "string \<Rightarrow> int option" where
  "parseInt s =
     (let (neg, u) = strip_sign (dropWhile js_whitespace s)
      in if prefix ''0x'' u \<or> prefix ''0X'' u then
           (let ds = takeWhile is_hex_digit (drop 2 u)
            in if ds = [] then None
               else Some ((if neg then - 1 else 1) * int (hex_digits_value ds)))
         else
           (let ds = takeWhile is_digit u
            in if ds = [] then None
               else Some ((if neg then - 1 else 1) * int (digits_value ds))))"

text \<open>\<^verbatim>\<open>n.toString()\<close> of an integer.\<close>

fun nat_toString :: "nat \<Rightarrow> string" where
  "nat_toString n =
     (if n < 10 then [digit_char n] else nat_toString (n div 10) @ [digit_char (n mod 10)])"

declare nat_toString.simps [simp del]

definition int_toString :: "int \<Rightarrow> string" where
  "int_toString i = (if i < 0 then CHR ''-'' # nat_toString (nat (- i)) else nat_toString (nat i))"

text \<open>\<^verbatim>\<open>Number(part)\<close> on a string of decimal digits. The source applies it only to the
  parts of a string that passed \<open>isIPv4\<close>, which are such strings; every other input is
  outside this fragment and reads as \<open>None\<close>.\<close>

definition js_Number :: "string \<Rightarrow> int option" where
  "js_Number s = (if s \<noteq> [] \<and> list_all is_digit s then Some (int (digits_value s)) else None)"

text \<open>\<^verbatim>\<open>toLowerCase\<close> on the ASCII letters (host names and addresses are ASCII).\<close>

definition toLowerCase :: "string \<Rightarrow> string" where
  "toLowerCase s = map lower_char s"

definition startsWith :: "string \<Rightarrow> string \<Rightarrow> bool" where
  "startsWith s p = prefix p s"

text \<open>\<^verbatim>\<open>s.includes(p)\<close>: \<open>p\<close> occurs in \<open>s\<close> as a contiguous substring.\<close>

fun includes_str :: "string \<Rightarrow> string \<Rightarrow> bool" where
  "includes_str [] p = (p = [])"
| "includes_str (c # cs) p = (prefix p (c # cs) \<or> includes_str cs p)"

text \<open>\<^verbatim>\<open>a || d\<close> where \<open>a\<close> may be undefined: the empty string is falsy as well.\<close>

definition js_or :: "string option \<Rightarrow> string \<Rightarrow> string" where
  "js_or a d = (case a of None \<Rightarrow> d | Some s \<Rightarrow> if s = [] then d else s)"

text \<open>The same where the right operand may be undefined too.\<close>

definition js_or_opt :: "string option \<Rightarrow> string option \<Rightarrow> string option" where
  "js_or_opt a d = (case a of None \<Rightarrow> d | Some s \<Rightarrow> if s = [] then d else Some s)"

text \<open>A value interpolated into a template literal: undefined prints as
  \<^verbatim>\<open>undefined\<close>.\<close>

definition template_str :: "string option \<Rightarrow> string" where
  "template_str a = (case a of None \<Rightarrow> ''undefined'' | Some s \<Rightarrow> s)"

section \<open>URL safety validator\<close>

text \<open>\<^verbatim>\<open>isIPv4\<close>: four dot-separated parts, each the canonical decimal of a number in
  \<open>0..255\<close>.\<close>

definition ipv4_part_ok :: "string \<Rightarrow> bool" where
  "ipv4_part_ok part =
     (case parseInt10 part of
        None \<Rightarrow> False
      | Some num \<Rightarrow> num \<ge> 0 \<and> num \<le> 255 \<and> part = int_toString num)"

definition isIPv4 :: "string \<Rightarrow> bool" where
  "isIPv4 str =
     (let parts = split_on CHR ''.'' str
      in if length parts \<noteq> 4 then False else list_all ipv4_part_ok parts)"

definition isPrivateIP :: "string \<Rightarrow> bool" where
  "isPrivateIP ip =
     (if isIPv4 ip then
        (let parts = map js_Number (split_on CHR ''.'' ip);
             p0 = parts ! 0; p1 = parts ! 1
         in if p0 = Some 127 then True
            else if p0 = Some 10 then True
            else if p0 = Some 172 \<and> (case p1 of None \<Rightarrow> False | Some n \<Rightarrow> n \<ge> 16 \<and> n \<le> 31) then True
            else if p0 = Some 192 \<and> p1 = Some 168 then True
            else if p0 = Some 169 \<and> p1 = Some 254 then True
            else if p0 = Some 0 then True
            else False)
      else
        (let ipLower = toLowerCase ip
         in if ipLower = ''::1'' \<or> ipLower = ''[::1]'' then True
            else if startsWith ipLower ''fc'' \<or> startsWith ipLower ''fd'' then True
            else if startsWith ipLower ''fe80:'' then True
            else if includes_str ipLower ''::ffff:'' then True
            else False))"

text \<open>
  The outside world of the server: the WHATWG URL parser, the system resolver,
  \<^verbatim>\<open>node-fetch\<close>, \<^verbatim>\<open>sharp\<close> and Node's base64 decoder. Each is a parameter; \<open>None\<close> is a
  thrown exception or a rejected promise.
\<close>

record url_parts =
  protocol :: string
  hostname :: string

record lookup_address =
  address :: string
  family :: nat

record fetch_response =
  ok :: bool
  content_type :: "string option"
  content_length :: "string option"
  arrayBuffer :: "byte list option"

record sharp_metadata =
  sm_width :: "nat option"
  sm_height :: "nat option"
  sm_format :: "string option"

record env =
  new_URL :: "string \<Rightarrow> url_parts option"
  dns_lookup :: "string \<Rightarrow> lookup_address list option"
  fetch :: "string \<Rightarrow> fetch_response option"
  sharp :: "byte list \<Rightarrow> sharp_metadata option"
  Buffer_from_base64 :: "string \<Rightarrow> byte list"

record validation =
  valid :: bool
  error :: "string option"

definition rejected :: "string \<Rightarrow> validation" where
  "rejected reason = \<lparr>valid = False, error = Some reason\<rparr>"

text \<open>The loop over the resolved addresses, which returns at the first private one.\<close>

fun any_private :: "lookup_address list \<Rightarrow> bool" where
  "any_private [] = False"
| "any_private (r # rs) = (if isPrivateIP (address r) then True else any_private rs)"

text \<open>\<^verbatim>\<open>dns.lookup(hostname, {all: true}).catch(() => [])\<close>.\<close>

definition lookup_all :: "env \<Rightarrow> string \<Rightarrow> lookup_address list" where
  "lookup_all e host = (case dns_lookup e host of None \<Rightarrow> [] | Some rs \<Rightarrow> rs)"

definition validateImageUrl :: "env \<Rightarrow> string \<Rightarrow> validation" where
  "validateImageUrl e urlString =
     (case new_URL e urlString of
        None \<Rightarrow> rejected ''Invalid URL format''
      | Some url \<Rightarrow>
          if protocol url \<notin> set [''http:'', ''https:''] then
            rejected ''Only HTTP and HTTPS protocols are allowed''
          else
            (let host = toLowerCase (hostname url)
             in if host = ''localhost'' \<or> host = ''0.0.0.0'' then
                  rejected ''Localhost URLs are not allowed''
                else if isPrivateIP host then
                  rejected ''Private IP addresses are not allowed''
                else
                  (let lookupResult = lookup_all e host
                   in if length lookupResult = 0 then rejected ''Failed to resolve hostname''
                      else if any_private lookupResult then
                        rejected ''URL resolves to a private IP address''
                      else \<lparr>valid = True, error = None\<rparr>)))"

section \<open>Image metadata extractor\<close>

record image_metadata =
  md_width :: "nat option"
  md_height :: "nat option"
  md_format :: "string option"
  md_size :: nat

definition getImageMetadata :: "env \<Rightarrow> byte list \<Rightarrow> image_metadata" where
  "getImageMetadata e buffer =
     (case sharp e buffer of
        Some metadata \<Rightarrow>
          \<lparr>md_width = sm_width metadata, md_height = sm_height metadata,
           md_format = sm_format metadata, md_size = length buffer\<rparr>
      | None \<Rightarrow>
          \<lparr>md_width = None, md_height = None,
           md_format = Some ''unknown'', md_size = length buffer\<rparr>)"

section \<open>Image store\<close>

record image =
  img_id :: string
  img_type :: string
  img_data :: string
  img_filename :: "string option"
  img_format :: "string option"
  img_width :: "nat option"
  img_height :: "nat option"
  img_size :: "nat option"
  img_uploadedAt :: nat

record insert_image =
  ins_type :: string
  ins_data :: string
  ins_filename :: "string option"
  ins_format :: "string option"
  ins_width :: "nat option"
  ins_height :: "nat option"
  ins_size :: "nat option"

record mem_storage =
  images :: "string \<rightharpoonup> image"
  currentImageId :: "string option"

definition new_storage :: mem_storage where
  "new_storage = \<lparr>images = Map.empty, currentImageId = None\<rparr>"

text \<open>\<^verbatim>\<open>if (!this.currentImageId) return undefined\<close>: the empty string is falsy too.\<close>

definition getCurrentImage :: "mem_storage \<Rightarrow> image option" where
  "getCurrentImage s =
     (case currentImageId s of
        None \<Rightarrow> None
      | Some cid \<Rightarrow> if cid = [] then None else images s cid)"

definition getImage :: "mem_storage \<Rightarrow> string \<Rightarrow> image option" where
  "getImage s i = images s i"

text \<open>\<open>uuid\<close> is what \<^verbatim>\<open>randomUUID()\<close> returns in this call, \<open>now\<close> what
  \<^verbatim>\<open>new Date()\<close> does.\<close>

definition make_image :: "string \<Rightarrow> nat \<Rightarrow> insert_image \<Rightarrow> image" where
  "make_image uuid now insertImage =
     \<lparr>img_id = uuid, img_type = ins_type insertImage, img_data = ins_data insertImage,
      img_filename = ins_filename insertImage, img_format = ins_format insertImage,
      img_width = ins_width insertImage, img_height = ins_height insertImage,
      img_size = ins_size insertImage, img_uploadedAt = now\<rparr>"

definition storeImage :: "string \<Rightarrow> nat \<Rightarrow> insert_image \<Rightarrow> mem_storage \<Rightarrow> image \<times> mem_storage" where
  "storeImage uuid now insertImage s =
     (let image = make_image uuid now insertImage
      in (image, s\<lparr>images := (images s)(uuid \<mapsto> image), currentImageId := Some uuid\<rparr>))"

text \<open>A sequence of commits, each with the id and the time drawn for it.\<close>

fun commits :: "(string \<times> nat \<times> insert_image) list \<Rightarrow> mem_storage \<Rightarrow> mem_storage" where
  "commits [] s = s"
| "commits ((uuid, now, ins) # cs) s = commits cs (snd (storeImage uuid now ins s))"

section \<open>Base64\<close>

text \<open>\<^verbatim>\<open>buffer.toString('base64')\<close>: the standard alphabet, three bytes to four
  characters, padded with \<^verbatim>\<open>=\<close>.\<close>

definition b64_alphabet :: string where
  "b64_alphabet = ''ABCDEFGHIJKLMNOPQRSTUVWXYZabcdefghijklmnopqrstuvwxyz0123456789+/''"

definition b64_char :: "nat \<Rightarrow> char" where
  "b64_char i = b64_alphabet ! i"

fun base64_encode :: "byte list \<Rightarrow> string" where
  "base64_encode [] = []"
| "base64_encode [a] =
     [b64_char (unat a div 4), b64_char ((unat a mod 4) * 16), CHR ''='', CHR ''='']"
| "base64_encode [a, b] =
     [b64_char (unat a div 4), b64_char ((unat a mod 4) * 16 + unat b div 16),
      b64_char ((unat b mod 16) * 4), CHR ''='']"
| "base64_encode (a # b # c # rest) =
     [b64_char (unat a div 4), b64_char ((unat a mod 4) * 16 + unat b div 16),
      b64_char ((unat b mod 16) * 4 + unat c div 64), b64_char (unat c mod 64)]
     @ base64_encode rest"

text \<open>The decoder of padded, canonical base64 text; \<open>None\<close> on anything else.\<close>

definition b64_index :: "char \<Rightarrow> nat option" where
  "b64_index c = index_of c b64_alphabet"

fun base64_decode :: "string \<Rightarrow> byte list option" where
  "base64_decode [] = Some []"
| "base64_decode (c0 # c1 # c2 # c3 # rest) =
     (case (b64_index c0, b64_index c1) of
        (Some i0, Some i1) \<Rightarrow>
          if c2 = CHR ''='' \<and> c3 = CHR ''='' \<and> rest = [] then
            Some [of_nat (i0 * 4 + i1 div 16)]
          else
            (case b64_index c2 of
               None \<Rightarrow> None
             | Some i2 \<Rightarrow>
                 if c3 = CHR ''='' \<and> rest = [] then
                   Some [of_nat (i0 * 4 + i1 div 16), of_nat ((i1 mod 16) * 16 + i2 div 4)]
                 else
                   (case b64_index c3 of
                      None \<Rightarrow> None
                    | Some i3 \<Rightarrow>
                        map_option
                          (\<lambda>bs. of_nat (i0 * 4 + i1 div 16) # of_nat ((i1 mod 16) * 16 + i2 div 4)
                                # of_nat ((i2 mod 4) * 64 + i3) # bs)
                          (base64_decode rest)))
      | _ \<Rightarrow> None)"
| "base64_decode _ = None"

section \<open>Broadcast hub\<close>

type_synonym ws = nat

datatype ready_state = CONNECTING | OPEN | CLOSING | CLOSED

text \<open>The messages of the socket protocol: the server sends \<^verbatim>\<open>image_update\<close>; the
  client sends \<^verbatim>\<open>ping\<close> and understands \<^verbatim>\<open>pong\<close>.\<close>

datatype ws_message = ImageUpdate image | Ping nat | Pong nat

text \<open>
  The state of the server process: the store, the set of clients in insertion order, each
  socket's \<^verbatim>\<open>readyState\<close> (owned by the transport, only read by the handlers), and two
  traces: the messages sent to each socket and the URLs handed to \<^verbatim>\<open>fetch\<close>.
\<close>

record server_state =
  storage :: mem_storage
  clients :: "ws list"
  readyState :: "ws \<Rightarrow> ready_state"
  sent :: "ws \<Rightarrow> ws_message list"
  fetched :: "string list"

definition start_state :: server_state where
  "start_state =
     \<lparr>storage = new_storage, clients = [], readyState = (\<lambda>_. CLOSED),
      sent = (\<lambda>_. []), fetched = []\<rparr>"

definition clients_add :: "ws \<Rightarrow> ws list \<Rightarrow> ws list" where
  "clients_add w cs = (if w \<in> set cs then cs else cs @ [w])"

definition clients_delete :: "ws \<Rightarrow> ws list \<Rightarrow> ws list" where
  "clients_delete w cs = removeAll w cs"

definition ws_send :: "ws \<Rightarrow> ws_message \<Rightarrow> server_state \<Rightarrow> server_state" where
  "ws_send w m st = st\<lparr>sent := (sent st)(w := sent st w @ [m])\<rparr>"

definition on_connection :: "ws \<Rightarrow> server_state \<Rightarrow> server_state" where
  "on_connection w st =
     (let st1 = st\<lparr>clients := clients_add w (clients st)\<rparr>
      in case getCurrentImage (storage st1) of
           None \<Rightarrow> st1
         | Some currentImage \<Rightarrow>
             if readyState st1 w = OPEN then ws_send w (ImageUpdate currentImage) st1 else st1)"

definition on_close :: "ws \<Rightarrow> server_state \<Rightarrow> server_state" where
  "on_close w st = st\<lparr>clients := clients_delete w (clients st)\<rparr>"

definition on_error :: "ws \<Rightarrow> server_state \<Rightarrow> server_state" where
  "on_error w st = st\<lparr>clients := clients_delete w (clients st)\<rparr>"

text \<open>\<^verbatim>\<open>clients.forEach\<close> of \<open>broadcastImageUpdate\<close>.\<close>

fun broadcast_to :: "ws list \<Rightarrow> ws_message \<Rightarrow> server_state \<Rightarrow> server_state" where
  "broadcast_to [] m st = st"
| "broadcast_to (client # rest) m st =
     broadcast_to rest m (if readyState st client = OPEN then ws_send client m st else st)"

definition broadcastImageUpdate :: "image \<Rightarrow> server_state \<Rightarrow> server_state" where
  "broadcastImageUpdate img st = broadcast_to (clients st) (ImageUpdate img) st"

section \<open>Ingestion routes\<close>

definition MAX_SIZE :: nat where
  "MAX_SIZE = 10 * 1024 * 1024"

record http_response =
  status :: nat
  success :: bool
  message :: string
  res_image :: "image option"

definition fail_response :: "nat \<Rightarrow> string \<Rightarrow> http_response" where
  "fail_response code msg = \<lparr>status = code, success = False, message = msg, res_image = None\<rparr>"

text \<open>The success answer reports the id, dimensions, format, size and time of the stored
  image; the model keeps the stored image itself.\<close>

definition ok_response :: "image \<Rightarrow> http_response" where
  "ok_response storedImage =
     \<lparr>status = 200, success = True, message = ''Image uploaded successfully'',
      res_image = Some storedImage\<rparr>"

record b64_metadata =
  bm_filename :: "string option"
  bm_format :: "string option"

text \<open>The request body after \<^verbatim>\<open>imageUploadSchema.parse\<close>; \<open>InvalidBody\<close> is a ZodError.\<close>

datatype json_body =
    Base64Body string "b64_metadata option"
  | UrlBody string
  | InvalidBody

definition is_lower_az :: "char \<Rightarrow> bool" where
  "is_lower_az c = (c \<in> set ''abcdefghijklmnopqrstuvwxyz'')"

text \<open>\<^verbatim>\<open>data.replace(/^data:image\/[a-z]+;base64,/, '')\<close>.\<close>

definition strip_data_uri :: "string \<Rightarrow> string" where
  "strip_data_uri s =
     (if prefix ''data:image/'' s then
        (let r = drop 11 s; rest = dropWhile is_lower_az r
         in if takeWhile is_lower_az r \<noteq> [] \<and> prefix '';base64,'' rest then drop 8 rest else s)
      else s)"

definition nth_opt :: "'a list \<Rightarrow> nat \<Rightarrow> 'a option" where
  "nth_opt xs i = (if i < length xs then Some (xs ! i) else None)"

text \<open>The template literal both routes store as the image data.\<close>

definition data_uri :: "image_metadata \<Rightarrow> byte list \<Rightarrow> string" where
  "data_uri metadata imageBuffer =
     ''data:image/'' @ template_str (md_format metadata) @ '';base64,'' @ base64_encode imageBuffer"

text \<open>The common tail of the JSON route: extract, store, broadcast, answer.\<close>

definition finish_json_upload ::
  "env \<Rightarrow> string \<Rightarrow> nat \<Rightarrow> string \<Rightarrow> byte list \<Rightarrow> string \<Rightarrow> string \<Rightarrow> server_state
     \<Rightarrow> http_response \<times> server_state" where
  "finish_json_upload e uuid now type imageBuffer filename format st =
     (let metadata = getImageMetadata e imageBuffer;
          base64String = data_uri metadata imageBuffer;
          (storedImage, store') =
            storeImage uuid now
              \<lparr>ins_type = type, ins_data = base64String, ins_filename = Some filename,
               ins_format = js_or_opt (md_format metadata) (Some format),
               ins_width = md_width metadata, ins_height = md_height metadata,
               ins_size = Some (md_size metadata)\<rparr>
              (storage st);
          st1 = broadcastImageUpdate storedImage (st\<lparr>storage := store'\<rparr>)
      in (ok_response storedImage, st1))"

text \<open>\<^verbatim>\<open>contentLength && parseInt(contentLength) > 10 * 1024 * 1024\<close>.\<close>

definition declared_too_large :: "string option \<Rightarrow> bool" where
  "declared_too_large contentLength =
     (case contentLength of
        None \<Rightarrow> False
      | Some s \<Rightarrow>
          s \<noteq> [] \<and> (case parseInt s of None \<Rightarrow> False | Some n \<Rightarrow> n > int MAX_SIZE))"

text \<open>\<^verbatim>\<open>POST /api/v1/image/upload\<close>. An exception that is not a ZodError (a failed
  \<^verbatim>\<open>fetch\<close>, a failed body read) ends in the 500 answer of the outer \<^verbatim>\<open>catch\<close>.\<close>

definition json_upload_handler ::
  "env \<Rightarrow> string \<Rightarrow> nat \<Rightarrow> json_body \<Rightarrow> server_state \<Rightarrow> http_response \<times> server_state" where
  "json_upload_handler e uuid now body st =
     (case body of
        InvalidBody \<Rightarrow> (fail_response 400 ''Invalid request format'', st)
      | Base64Body data metadata \<Rightarrow>
          (let base64Data = strip_data_uri data;
               imageBuffer = Buffer_from_base64 e base64Data;
               filename = js_or (case metadata of None \<Rightarrow> None | Some m \<Rightarrow> bm_filename m)
                            ''base64-image'';
               format = js_or (case metadata of None \<Rightarrow> None | Some m \<Rightarrow> bm_format m)
                          ''unknown''
           in finish_json_upload e uuid now ''base64'' imageBuffer filename format st)
      | UrlBody url \<Rightarrow>
          (let validation = validateImageUrl e url
           in if \<not> valid validation then
                (fail_response 400 (js_or (error validation) ''Invalid URL''), st)
              else
                (let st1 = st\<lparr>fetched := fetched st @ [url]\<rparr>
                 in case fetch e url of
                      None \<Rightarrow> (fail_response 500 ''Internal server error'', st1)
                    | Some response \<Rightarrow>
                        if \<not> ok response then
                          (fail_response 400 ''Failed to fetch image from URL'', st1)
                        else
                          (case content_type response of
                             None \<Rightarrow>
                               (fail_response 400
                                  ''URL does not point to an image (invalid content-type)'', st1)
                           | Some contentType \<Rightarrow>
                               if \<not> startsWith contentType ''image/'' then
                                 (fail_response 400
                                    ''URL does not point to an image (invalid content-type)'', st1)
                               else if declared_too_large (content_length response) then
                                 (fail_response 400 ''Image too large (max 10MB)'', st1)
                               else
                                 (case arrayBuffer response of
                                    None \<Rightarrow> (fail_response 500 ''Internal server error'', st1)
                                  | Some bytes \<Rightarrow>
                                      if length bytes > MAX_SIZE then
                                        (fail_response 400 ''Image too large (max 10MB)'', st1)
                                      else
                                        (let filename =
                                               js_or (Some (last (split_on CHR ''/'' url)))
                                                 ''url-image'';
                                             format =
                                               js_or (nth_opt (split_on CHR ''/'' contentType) 1)
                                                 ''unknown''
                                         in finish_json_upload e uuid now ''url'' bytes
                                              filename format st1))))))"

text \<open>The multer middleware of the multipart route: the file filter runs on the part's
  declared type before its bytes are read, then the size limit cuts the upload off.\<close>

record multipart_file =
  originalname :: string
  mimetype :: string
  buffer :: "byte list"

datatype multer_error = FileFilterError string | LIMIT_FILE_SIZE

definition allowedMimes :: "string list" where
  "allowedMimes = [''image/jpeg'', ''image/png'', ''image/gif'', ''image/webp'']"

definition fileFilter :: "multipart_file \<Rightarrow> string option" where
  "fileFilter file =
     (if mimetype file \<in> set allowedMimes then None
      else Some ''Invalid file type. Only JPEG, PNG, GIF, and WebP are allowed.'')"

definition upload_single :: "multipart_file option \<Rightarrow> multer_error + multipart_file option" where
  "upload_single part =
     (case part of
        None \<Rightarrow> Inr None
      | Some file \<Rightarrow>
          (case fileFilter file of
             Some msg \<Rightarrow> Inl (FileFilterError msg)
           | None \<Rightarrow>
               if length (buffer file) > MAX_SIZE then Inl LIMIT_FILE_SIZE else Inr (Some file)))"

text \<open>The handler of \<^verbatim>\<open>POST /api/v1/image/upload/multipart\<close>, run on \<^verbatim>\<open>req.file\<close>. The
  \<^verbatim>\<open>metadata\<close> form field is parsed and then unused, so it is left out.\<close>

definition multipart_upload_handler ::
  "env \<Rightarrow> string \<Rightarrow> nat \<Rightarrow> multipart_file option \<Rightarrow> server_state
     \<Rightarrow> http_response \<times> server_state" where
  "multipart_upload_handler e uuid now req_file st =
     (case req_file of
        None \<Rightarrow> (fail_response 400 ''No image file provided'', st)
      | Some file \<Rightarrow>
          (let imageBuffer = buffer file;
               metadata = getImageMetadata e imageBuffer;
               base64String = data_uri metadata imageBuffer;
               (storedImage, store') =
                 storeImage uuid now
                   \<lparr>ins_type = ''upload'', ins_data = base64String,
                    ins_filename = Some (originalname file),
                    ins_format =
                      js_or_opt (md_format metadata)
                        (nth_opt (split_on CHR ''/'' (mimetype file)) 1),
                    ins_width = md_width metadata, ins_height = md_height metadata,
                    ins_size = Some (md_size metadata)\<rparr>
                   (storage st);
               st1 = broadcastImageUpdate storedImage (st\<lparr>storage := store'\<rparr>)
           in (ok_response storedImage, st1)))"

text \<open>The whole route: an error of the middleware goes to the framework's error handler
  and the route's handler does not run.\<close>

definition multipart_route ::
  "env \<Rightarrow> string \<Rightarrow> nat \<Rightarrow> multipart_file option \<Rightarrow> server_state
     \<Rightarrow> (multer_error + http_response) \<times> server_state" where
  "multipart_route e uuid now part st =
     (case upload_single part of
        Inl err \<Rightarrow> (Inl err, st)
      | Inr req_file \<Rightarrow>
          (let (res, st1) = multipart_upload_handler e uuid now req_file st in (Inr res, st1)))"

section \<open>The server as a state machine\<close>

text \<open>
  One event is one callback of the event loop. The server registers handlers for a new
  connection, for a socket's close and error, and for the two routes; it registers none
  for a frame received from a client and none for a timer, so such an event leaves the
  state as it is. \<open>SocketState\<close> is the transport changing a socket's \<^verbatim>\<open>readyState\<close>.
\<close>

datatype event =
    Connection ws
  | Close ws
  | SocketError ws
  | Message ws ws_message
  | SocketState ws ready_state
  | JsonUpload string nat json_body
  | MultipartUpload string nat "multipart_file option"

fun step :: "env \<Rightarrow> event \<Rightarrow> server_state \<Rightarrow> server_state" where
  "step e (Connection w) st = on_connection w st"
| "step e (Close w) st = on_close w st"
| "step e (SocketError w) st = on_error w st"
| "step e (Message w m) st = st"
| "step e (SocketState w rs) st = st\<lparr>readyState := (readyState st)(w := rs)\<rparr>"
| "step e (JsonUpload uuid now body) st = snd (json_upload_handler e uuid now body st)"
| "step e (MultipartUpload uuid now part) st = snd (multipart_route e uuid now part st)"

fun run :: "env \<Rightarrow> event list \<Rightarrow> server_state \<Rightarrow> server_state" where
  "run e [] st = st"
| "run e (ev # evs) st = run e evs (step e ev st)"

section \<open>Scenarios\<close>

text \<open>Concrete inputs on which the properties below are exercised.\<close>

text \<open>The image that a commit \<open>(uuid, now, insertImage)\<close> creates.\<close>

definition committed_image :: "string \<times> nat \<times> insert_image \<Rightarrow> image" where
  "committed_image c = (case c of (uuid, now, ins) \<Rightarrow> make_image uuid now ins)"

definition demo_insert :: "string \<Rightarrow> insert_image" where
  "demo_insert d =
     \<lparr>ins_type = ''upload'', ins_data = d, ins_filename = None, ins_format = Some ''png'',
      ins_width = Some 1, ins_height = Some 1, ins_size = Some 3\<rparr>"

definition demo_commits :: "(string \<times> nat \<times> insert_image) list" where
  "demo_commits = [(''id-a'', 1, demo_insert ''A''), (''id-b'', 2, demo_insert ''B'')]"

text \<open>An outside world for the scenarios. Its decoder is the canonical one, which is what
  Node's decoder computes on canonical text. Every buffer of the scenarios is either two
  or three bytes long or a run of zero bytes, and holds no image, so \<^verbatim>\<open>sharp\<close> fails on
  each of them; the \<^verbatim>\<open>sharp\<close> of the scenarios is the one that fails.\<close>

definition demo_new_URL :: "string \<Rightarrow> url_parts option" where
  "demo_new_URL u =
     (if u = ''http://img.example/pic.tiff'' then
        Some \<lparr>protocol = ''http:'', hostname = ''img.example''\<rparr>
      else if u = ''http://img.example/page.html'' then
        Some \<lparr>protocol = ''http:'', hostname = ''img.example''\<rparr>
      else if u = ''http://img.example/broken.png'' then
        Some \<lparr>protocol = ''http:'', hostname = ''img.example''\<rparr>
      else if u = ''http://mixed.example/a.png'' then
        Some \<lparr>protocol = ''http:'', hostname = ''mixed.example''\<rparr>
      else None)"

definition demo_dns_lookup :: "string \<Rightarrow> lookup_address list option" where
  "demo_dns_lookup h =
     (if h = ''img.example'' then Some [\<lparr>address = ''93.184.216.34'', family = 4\<rparr>]
      else if h = ''mixed.example'' then
        Some [\<lparr>address = ''93.184.216.34'', family = 4\<rparr>, \<lparr>address = ''10.0.0.5'', family = 4\<rparr>]
      else None)"

definition demo_fetch :: "string \<Rightarrow> fetch_response option" where
  "demo_fetch u =
     (if u = ''http://img.example/pic.tiff'' then
        Some \<lparr>ok = True, content_type = Some ''image/tiff'', content_length = Some ''3'',
              arrayBuffer = Some [73, 73, 42]\<rparr>
      else if u = ''http://img.example/page.html'' then
        Some \<lparr>ok = True, content_type = Some ''text/html'', content_length = Some ''3'',
              arrayBuffer = Some [60, 112, 62]\<rparr>
      else if u = ''http://img.example/broken.png'' then
        Some \<lparr>ok = True, content_type = Some ''image/png'', content_length = None,
              arrayBuffer = Some [137, 80]\<rparr>
      else None)"

definition demo_sharp :: "byte list \<Rightarrow> sharp_metadata option" where
  "demo_sharp b = None"

definition demo_decode :: "string \<Rightarrow> byte list" where
  "demo_decode s = (case base64_decode s of None \<Rightarrow> [] | Some bs \<Rightarrow> bs)"

definition demo_env :: env where
  "demo_env =
     \<lparr>new_URL = demo_new_URL, dns_lookup = demo_dns_lookup, fetch = demo_fetch,
      sharp = demo_sharp, Buffer_from_base64 = demo_decode\<rparr>"

text \<open>An outside world in which the host \<^verbatim>\<open>ll.example\<close> resolves to one address of the
  link-local block \<^verbatim>\<open>fe80::/10\<close>, and a server answers there.\<close>

definition link_local_env :: env where
  "link_local_env =
     \<lparr>new_URL = (\<lambda>u. if u = ''http://ll.example/a.png'' then
          Some \<lparr>protocol = ''http:'', hostname = ''ll.example''\<rparr> else None),
      dns_lookup = (\<lambda>h. if h = ''ll.example'' then
          Some [\<lparr>address = ''febf::1'', family = 6\<rparr>] else None),
      fetch = (\<lambda>u. if u = ''http://ll.example/a.png'' then
          Some \<lparr>ok = True, content_type = Some ''image/png'', content_length = None,
                arrayBuffer = Some [137, 80]\<rparr> else None),
      sharp = demo_sharp, Buffer_from_base64 = demo_decode\<rparr>"

definition demo_file :: "string \<Rightarrow> multipart_file" where
  "demo_file mt = \<lparr>originalname = ''pic.bin'', mimetype = mt, buffer = [1, 2, 3]\<rparr>"

text \<open>An image that records a failed extraction of a buffer of \<open>n\<close> bytes.\<close>

definition degraded_image :: "image \<Rightarrow> nat \<Rightarrow> bool" where
  "degraded_image img n =
     (img_format img = Some ''unknown'' \<and> img_width img = None \<and> img_height img = None \<and>
      img_size img = Some n)"

text \<open>The stored payload of \<open>img\<close> is the data URI of \<open>bytes\<close>, and the text after its
  header decodes to \<open>bytes\<close>.\<close>

definition canonical_payload :: "env \<Rightarrow> image \<Rightarrow> byte list \<Rightarrow> bool" where
  "canonical_payload e img bytes =
     (let fmt = template_str (md_format (getImageMetadata e bytes))
      in img_data img = ''data:image/'' @ fmt @ '';base64,'' @ base64_encode bytes \<and>
         base64_decode (drop (length (''data:image/'' @ fmt @ '';base64,'')) (img_data img))
           = Some bytes)"

text \<open>The raw bytes that a request of the JSON route brings in: the decoded inline data,
  or the body of the fetched response.\<close>

fun ingested_bytes :: "env \<Rightarrow> json_body \<Rightarrow> byte list option" where
  "ingested_bytes e (Base64Body data md) = Some (Buffer_from_base64 e (strip_data_uri data))"
| "ingested_bytes e (UrlBody url) =
     (case fetch e url of None \<Rightarrow> None | Some response \<Rightarrow> arrayBuffer response)"
| "ingested_bytes e InvalidBody = None"

text \<open>A buffer one byte over the ceiling.\<close>

definition oversized_buffer :: "byte list" where
  "oversized_buffer = replicate (MAX_SIZE + 1) 0"

fun is_upload :: "event \<Rightarrow> bool" where
  "is_upload (JsonUpload uuid now body) = True"
| "is_upload (MultipartUpload uuid now part) = True"
| "is_upload _ = False"

text \<open>The reasons that \<open>validateImageUrl\<close> gives for a rejection.\<close>

definition rejection_reasons :: "string list" where
  "rejection_reasons =
     [''Invalid URL format'', ''Only HTTP and HTTPS protocols are allowed'',
      ''Localhost URLs are not allowed'', ''Private IP addresses are not allowed'',
      ''Failed to resolve hostname'', ''URL resolves to a private IP address'']"

text \<open>Two sockets join, one of them sends a ping and the other stays silent, then a file
  is uploaded.\<close>

definition demo_events :: "event list" where
  "demo_events =
     [SocketState 7 OPEN, Connection 7, SocketState 8 OPEN, Connection 8,
      Message 7 (Ping 1000), MultipartUpload ''id-3'' 7 (Some (demo_file ''image/png''))]"

definition demo_image :: image where
  "demo_image =
     make_image ''id-3'' 7
       \<lparr>ins_type = ''upload'', ins_data = ''data:image/unknown;base64,AQID'',
        ins_filename = Some ''pic.bin'', ins_format = Some ''unknown'', ins_width = None,
        ins_height = None, ins_size = Some 3\<rparr>"

text \<open>The dotted-quad text of four numbers.\<close>

definition dotted_quad :: "nat \<Rightarrow> nat \<Rightarrow> nat \<Rightarrow> nat \<Rightarrow> string" where
  "dotted_quad a b c d =
     nat_toString a @ ''.'' @ nat_toString b @ ''.'' @ nat_toString c @ ''.'' @ nat_toString d"

text \<open>The private, loopback and link-local IPv4 blocks, by the first two octets.\<close>

definition ipv4_private_block :: "nat \<Rightarrow> nat \<Rightarrow> bool" where
  "ipv4_private_block a b =
     (a = 127 \<or> a = 10 \<or> (a = 172 \<and> 16 \<le> b \<and> b \<le> 31) \<or> (a = 192 \<and> b = 168) \<or>
      (a = 169 \<and> b = 254) \<or> a = 0)"

text \<open>An outside world whose one URL answers with a body over the ceiling and declares
  no length.\<close>

definition oversized_env :: env where
  "oversized_env =
     demo_env\<lparr>fetch := (\<lambda>u. if u = ''http://img.example/pic.tiff'' then
        Some \<lparr>ok = True, content_type = Some ''image/tiff'', content_length = None,
              arrayBuffer = Some oversized_buffer\<rparr> else None)\<rparr>"

section \<open>Properties\<close>

subsection \<open>Image store\<close>

lemma commits_append:
  "commits (cs @ [(uuid, now, ins)]) s = snd (storeImage uuid now ins (commits cs s))"
  by (induction cs arbitrary: s) auto

lemma images_commits_other:
  "u \<notin> fst ` set cs \<Longrightarrow> images (commits cs s) u = images s u"
  by (induction cs arbitrary: s) (auto simp: storeImage_def Let_def)

lemma images_commits_member:
  "distinct (map fst cs) \<Longrightarrow> (u, n, i) \<in> set cs \<Longrightarrow>
     images (commits cs s) u = Some (make_image u n i)"
proof (induction cs arbitrary: s)
  case Nil
  then show ?case by simp
next
  case (Cons c cs)
  obtain u' n' i' where c: "c = (u', n', i')" by (cases c) auto
  show ?case
  proof (cases "(u, n, i) = c")
    case True
    with Cons.prems c have "u \<notin> fst ` set cs" by auto
    then have "images (commits cs (snd (storeImage u n i s))) u = images (snd (storeImage u n i s)) u"
      by (rule images_commits_other)
    with True c show ?thesis by (simp add: storeImage_def Let_def)
  next
    case False
    with Cons.prems have "(u, n, i) \<in> set cs" and "distinct (map fst cs)" by auto
    with Cons.IH c show ?thesis by simp
  qed
qed

lemma currentImageId_commits:
  "currentImageId (commits cs s) = (if cs = [] then currentImageId s else Some (fst (last cs)))"
  by (induction cs arbitrary: s) (auto simp: storeImage_def Let_def)

text \<open>
  Claim C6. Take any sequence of commits whose ids are pairwise different and non-empty (as
  the ids of \<^verbatim>\<open>randomUUID\<close> are). After each commit, that is after every prefix of the
  sequence, \<open>getCurrentImage\<close> returns the image committed last, every image committed so
  far is still returned unchanged by \<open>getImage\<close> under its id, and \<open>getCurrentImage\<close>
  returns nothing exactly when nothing has been committed.
\<close>

theorem store_last_commit_wins:
  assumes "distinct (map fst cs)" and "\<forall>c \<in> set cs. fst c \<noteq> []" and "n \<le> length cs"
  shows "(getCurrentImage (commits (take n cs) new_storage) =
            (if n = 0 then None else Some (committed_image (cs ! (n - 1))))) \<and>
         (\<forall>k < n. getImage (commits (take n cs) new_storage) (fst (cs ! k)) =
            Some (committed_image (cs ! k))) \<and>
         (getCurrentImage (commits (take n cs) new_storage) = None \<longleftrightarrow> n = 0)"
proof -
  let ?p = "take n cs"
  have d: "distinct (map fst ?p)"
    using assms(1) by (simp add: take_map[symmetric] distinct_take del: take_map)
  have mem: "\<And>k. k < n \<Longrightarrow> cs ! k \<in> set ?p"
    using assms(3) by (metis in_set_conv_nth length_take min.absorb2 nth_take)
  have get: "images (commits ?p new_storage) (fst (cs ! k)) = Some (committed_image (cs ! k))"
    if "k < n" for k
  proof -
    obtain u t i where c: "cs ! k = (u, t, i)" by (cases "cs ! k") auto
    with mem[OF that] have "(u, t, i) \<in> set ?p" by simp
    from images_commits_member[OF d this] c show ?thesis
      by (simp add: committed_image_def)
  qed
  have cur: "getCurrentImage (commits ?p new_storage) = Some (committed_image (cs ! (n - 1)))"
    if "n \<noteq> 0"
  proof -
    from that assms(3) have ne: "?p \<noteq> []" by auto
    have "last ?p = ?p ! (length ?p - 1)" using ne by (rule last_conv_nth)
    also have "length ?p = n" using assms(3) by simp
    also have "?p ! (n - 1) = cs ! (n - 1)" using that by simp
    finally have l: "last ?p = cs ! (n - 1)" .
    from that assms(3) have "cs ! (n - 1) \<in> set cs" by simp
    with assms(2) have "fst (cs ! (n - 1)) \<noteq> []" by blast
    moreover from that have "n - 1 < n" by simp
    ultimately show ?thesis
      using get[of "n - 1"] ne l
      by (simp add: getCurrentImage_def currentImageId_commits)
  qed
  have emp: "getCurrentImage (commits ?p new_storage) = None" if "n = 0"
    using that by (simp add: getCurrentImage_def new_storage_def)
  show ?thesis using get cur emp by (auto simp: getImage_def)
qed

theorem store_last_commit_wins_witness:
  "distinct (map fst demo_commits) \<and> list_all (\<lambda>c. fst c \<noteq> []) demo_commits \<and>
   getCurrentImage (commits demo_commits new_storage) = Some (make_image ''id-b'' 2 (demo_insert ''B'')) \<and>
   getImage (commits demo_commits new_storage) ''id-a'' = Some (make_image ''id-a'' 1 (demo_insert ''A'')) \<and>
   getImage (commits demo_commits new_storage) ''id-b'' = Some (make_image ''id-b'' 2 (demo_insert ''B''))"
proof -
  have h1: "distinct (map fst demo_commits)" by (simp add: demo_commits_def)
  have h2: "\<forall>c \<in> set demo_commits. fst c \<noteq> []" by (simp add: demo_commits_def)
  have h3: "2 \<le> length demo_commits" by (simp add: demo_commits_def)
  from store_last_commit_wins[OF h1 h2 h3]
  have a: "getCurrentImage (commits (take 2 demo_commits) new_storage) = Some (committed_image (demo_commits ! 1))"
    and b: "\<forall>k<2. getImage (commits (take 2 demo_commits) new_storage) (fst (demo_commits ! k)) = Some (committed_image (demo_commits ! k))"
    by simp_all
  from b have b0: "getImage (commits (take 2 demo_commits) new_storage) (fst (demo_commits ! 0)) = Some (committed_image (demo_commits ! 0))"
    and b1: "getImage (commits (take 2 demo_commits) new_storage) (fst (demo_commits ! 1)) = Some (committed_image (demo_commits ! 1))"
    by simp_all
  have t: "take 2 demo_commits = demo_commits" by (simp add: demo_commits_def)
  have n0: "demo_commits ! 0 = (''id-a'', 1, demo_insert ''A'')" by (simp add: demo_commits_def)
  have n1: "demo_commits ! 1 = (''id-b'', 2, demo_insert ''B'')" by (simp add: demo_commits_def)
  have h2': "list_all (\<lambda>c. fst c \<noteq> []) demo_commits" by (simp add: demo_commits_def)
  show ?thesis using h1 h2' a b0 b1 unfolding t n0 n1 committed_image_def by simp
qed

subsection \<open>Base64 round trip\<close>

lemma index_of_nth:
  "distinct xs \<Longrightarrow> i < length xs \<Longrightarrow> index_of (xs ! i) xs = Some i"
proof (induction xs arbitrary: i)
  case Nil
  then show ?case by simp
next
  case (Cons x xs)
  show ?case
  proof (cases i)
    case 0
    then show ?thesis by simp
  next
    case (Suc j)
    with Cons.prems have "j < length xs" and "xs ! j \<in> set xs" and "x \<notin> set xs" by auto
    then have "x \<noteq> xs ! j" by auto
    with Suc Cons show ?thesis by simp
  qed
qed

lemma distinct_b64_alphabet: "distinct b64_alphabet"
  by (simp add: b64_alphabet_def)

lemma length_b64_alphabet: "length b64_alphabet = 64"
  by (simp add: b64_alphabet_def)

lemma b64_index_char: "i < 64 \<Longrightarrow> b64_index (b64_char i) = Some i"
  unfolding b64_index_def b64_char_def
  by (rule index_of_nth[OF distinct_b64_alphabet]) (simp add: length_b64_alphabet)

lemma b64_char_not_pad: "i < 64 \<Longrightarrow> b64_char i \<noteq> CHR ''=''"
proof -
  assume "i < 64"
  then have "b64_alphabet ! i \<in> set b64_alphabet" by (simp add: length_b64_alphabet)
  moreover have "CHR ''='' \<notin> set b64_alphabet" by (simp add: b64_alphabet_def)
  ultimately show ?thesis unfolding b64_char_def by metis
qed

lemma unat_byte_less: "unat (a :: byte) < 256"
  using unsigned_less[of a, where ?'a = nat] by simp

lemma sextets_bounds:
  fixes a b c :: byte
  shows "unat a div 4 < 64" "(unat a mod 4) * 16 + unat b div 16 < 64" "(unat a mod 4) * 16 < 64"
    "(unat b mod 16) * 4 + unat c div 64 < 64" "(unat b mod 16) * 4 < 64" "unat c mod 64 < 64"
  using unat_byte_less[of a] unat_byte_less[of b] unat_byte_less[of c] by simp_all

lemma octet0: "of_nat (unat a div 4 * 4 + ((unat a mod 4) * 16 + unat (b :: byte) div 16) div 16) = (a :: byte)"
proof -
  have "unat b div 16 < 16" using unat_byte_less[of b] by simp
  then have "((unat a mod 4) * 16 + unat b div 16) div 16 = unat a mod 4" by simp
  then have "unat a div 4 * 4 + ((unat a mod 4) * 16 + unat b div 16) div 16 = unat a" by simp
  then show ?thesis by simp
qed

lemma octet0_last: "of_nat (unat a div 4 * 4 + ((unat a mod 4) * 16) div 16) = (a :: byte)"
  by simp

lemma octet1:
  "of_nat ((((unat (a :: byte) mod 4) * 16 + unat b div 16) mod 16) * 16 + ((unat b mod 16) * 4 + unat (c :: byte) div 64) div 4) = (b :: byte)"
proof -
  have "unat b div 16 < 16" using unat_byte_less[of b] by simp
  then have 1: "((unat a mod 4) * 16 + unat b div 16) mod 16 = unat b div 16" by simp
  have "unat c div 64 < 4" using unat_byte_less[of c] by simp
  then have 2: "((unat b mod 16) * 4 + unat c div 64) div 4 = unat b mod 16" by simp
  show ?thesis unfolding 1 2 by simp
qed

lemma octet1_last:
  "of_nat ((((unat (a :: byte) mod 4) * 16 + unat b div 16) mod 16) * 16 + ((unat b mod 16) * 4) div 4) = (b :: byte)"
proof -
  have "unat b div 16 < 16" using unat_byte_less[of b] by simp
  then have 1: "((unat a mod 4) * 16 + unat b div 16) mod 16 = unat b div 16" by simp
  show ?thesis unfolding 1 by simp
qed

lemma octet2: "of_nat ((((unat (b :: byte) mod 16) * 4 + unat c div 64) mod 4) * 64 + unat c mod 64) = (c :: byte)"
proof -
  have "unat c div 64 < 4" using unat_byte_less[of c] by simp
  then have 1: "((unat b mod 16) * 4 + unat c div 64) mod 4 = unat c div 64" by simp
  show ?thesis unfolding 1 by simp
qed

lemma base64_encode_Nil_iff: "base64_encode bs = [] \<longleftrightarrow> bs = []"
  by (induction bs rule: base64_encode.induct) simp_all

lemma base64_roundtrip: "base64_decode (base64_encode bs) = Some bs"
proof (induction bs rule: base64_encode.induct)
  case 1
  then show ?case by simp
next
  case (2 a)
  show ?case
    by (simp add: b64_index_char b64_char_not_pad sextets_bounds octet0_last)
next
  case (3 a b)
  show ?case
    using octet0[of a b] octet1_last[of a b]
    by (simp add: b64_index_char b64_char_not_pad sextets_bounds)
next
  case (4 a b c rest)
  show ?case
    using octet0[of a b] octet1[of a b c] octet2[of b c] 4
    by (simp add: b64_index_char b64_char_not_pad sextets_bounds)
qed

subsection \<open>What the routes do\<close>

lemma ws_send_frame [simp]:
  "storage (ws_send w m st) = storage st" "clients (ws_send w m st) = clients st"
  "readyState (ws_send w m st) = readyState st" "fetched (ws_send w m st) = fetched st"
  by (simp_all add: ws_send_def)

lemma broadcast_to_frame [simp]:
  "storage (broadcast_to cs m st) = storage st" "clients (broadcast_to cs m st) = clients st"
  "readyState (broadcast_to cs m st) = readyState st" "fetched (broadcast_to cs m st) = fetched st"
  by (induction cs arbitrary: st) simp_all

lemma sent_broadcast_to_other:
  "w \<notin> set cs \<Longrightarrow> sent (broadcast_to cs m st) w = sent st w"
  by (induction cs arbitrary: st) (auto simp: ws_send_def)

lemma sent_broadcast_to:
  "distinct cs \<Longrightarrow>
     sent (broadcast_to cs m st) w =
       (if w \<in> set cs \<and> readyState st w = OPEN then sent st w @ [m] else sent st w)"
proof (induction cs arbitrary: st)
  case Nil
  then show ?case by simp
next
  case (Cons c cs)
  let ?st1 = "if readyState st c = OPEN then ws_send c m st else st"
  have rs: "readyState ?st1 = readyState st" by simp
  from Cons.prems have d: "distinct cs" and nc: "c \<notin> set cs" by auto
  show ?case
  proof (cases "w = c")
    case True
    with nc have "sent (broadcast_to cs m ?st1) w = sent ?st1 w"
      by (simp add: sent_broadcast_to_other)
    with True show ?thesis by (simp add: ws_send_def)
  next
    case False
    have "sent (broadcast_to (c # cs) m st) w = sent (broadcast_to cs m ?st1) w" by simp
    also have "\<dots> = (if w \<in> set cs \<and> readyState ?st1 w = OPEN then sent ?st1 w @ [m] else sent ?st1 w)"
      using Cons.IH[OF d] .
    also have "sent ?st1 w = sent st w" using False by (simp add: ws_send_def)
    finally show ?thesis using False rs by simp
  qed
qed

lemma broadcastImageUpdate_frame [simp]:
  "storage (broadcastImageUpdate img st) = storage st"
  "clients (broadcastImageUpdate img st) = clients st"
  "readyState (broadcastImageUpdate img st) = readyState st"
  "fetched (broadcastImageUpdate img st) = fetched st"
  by (simp_all add: broadcastImageUpdate_def)

lemma finish_json_upload_result:
  "finish_json_upload e uuid now ty bytes filename format st = (res, st') \<Longrightarrow>
     res = ok_response (make_image uuid now
             \<lparr>ins_type = ty, ins_data = data_uri (getImageMetadata e bytes) bytes,
              ins_filename = Some filename,
              ins_format = js_or_opt (md_format (getImageMetadata e bytes)) (Some format),
              ins_width = md_width (getImageMetadata e bytes),
              ins_height = md_height (getImageMetadata e bytes),
              ins_size = Some (md_size (getImageMetadata e bytes))\<rparr>) \<and>
     images (storage st') uuid = res_image res \<and>
     currentImageId (storage st') = Some uuid \<and>
     fetched st' = fetched st \<and> clients st' = clients st"
  by (auto simp: finish_json_upload_def storeImage_def Let_def ok_response_def)

lemma md_size_getImageMetadata [simp]: "md_size (getImageMetadata e buf) = length buf"
  by (simp add: getImageMetadata_def split: option.splits)

lemma getImageMetadata_failure:
  "sharp e buf = None \<Longrightarrow>
     getImageMetadata e buf =
       \<lparr>md_width = None, md_height = None, md_format = Some ''unknown'', md_size = length buf\<rparr>"
  by (simp add: getImageMetadata_def)

lemma canonical_payload_data_uri:
  "img_data img = data_uri (getImageMetadata e bytes) bytes \<Longrightarrow> canonical_payload e img bytes"
  by (simp add: canonical_payload_def data_uri_def Let_def base64_roundtrip)

text \<open>What the inline branch does, whatever the size of the decoded buffer.\<close>

lemma inline_upload_result:
  "json_upload_handler e uuid now (Base64Body data md) st = (res, st') \<Longrightarrow>
     \<exists>img. res = ok_response img \<and> images (storage st') uuid = Some img \<and>
       img_data img = data_uri (getImageMetadata e (Buffer_from_base64 e (strip_data_uri data)))
                        (Buffer_from_base64 e (strip_data_uri data)) \<and>
       img_format img =
         js_or_opt (md_format (getImageMetadata e (Buffer_from_base64 e (strip_data_uri data))))
           (Some (js_or (case md of None \<Rightarrow> None | Some m \<Rightarrow> bm_format m) ''unknown'')) \<and>
       img_width img = md_width (getImageMetadata e (Buffer_from_base64 e (strip_data_uri data))) \<and>
       img_height img = md_height (getImageMetadata e (Buffer_from_base64 e (strip_data_uri data))) \<and>
       img_size img = Some (length (Buffer_from_base64 e (strip_data_uri data)))"
  by (auto simp: json_upload_handler_def Let_def ok_response_def make_image_def
      dest!: finish_json_upload_result)

lemma url_upload_success:
  assumes "json_upload_handler e uuid now (UrlBody url) st = (res, st')" and "status res = 200"
  shows "\<exists>response contentType bytes img.
           valid (validateImageUrl e url) \<and> fetch e url = Some response \<and> ok response \<and>
           content_type response = Some contentType \<and> startsWith contentType ''image/'' \<and>
           arrayBuffer response = Some bytes \<and> length bytes \<le> MAX_SIZE \<and>
           res = ok_response img \<and> images (storage st') uuid = Some img \<and>
           img_data img = data_uri (getImageMetadata e bytes) bytes \<and>
           img_format img =
             js_or_opt (md_format (getImageMetadata e bytes))
               (Some (js_or (nth_opt (split_on CHR ''/'' contentType) 1) ''unknown'')) \<and>
           img_width img = md_width (getImageMetadata e bytes) \<and>
           img_height img = md_height (getImageMetadata e bytes) \<and>
           img_size img = Some (length bytes)"
  using assms
  by (auto simp: json_upload_handler_def Let_def ok_response_def make_image_def fail_response_def
      split: if_splits option.splits dest!: finish_json_upload_result)

lemma multipart_handler_result:
  "multipart_upload_handler e uuid now (Some file) st = (res, st') \<Longrightarrow>
     \<exists>img. res = ok_response img \<and> images (storage st') uuid = Some img \<and>
       currentImageId (storage st') = Some uuid \<and>
       img_data img = data_uri (getImageMetadata e (buffer file)) (buffer file) \<and>
       img_format img =
         js_or_opt (md_format (getImageMetadata e (buffer file)))
           (nth_opt (split_on CHR ''/'' (mimetype file)) 1) \<and>
       img_width img = md_width (getImageMetadata e (buffer file)) \<and>
       img_height img = md_height (getImageMetadata e (buffer file)) \<and>
       img_size img = Some (length (buffer file))"
  by (auto simp: multipart_upload_handler_def Let_def ok_response_def make_image_def
      storeImage_def)

lemma multipart_route_success:
  assumes "multipart_route e uuid now part st = (Inr res, st')" and "status res = 200"
  shows "\<exists>file img. part = Some file \<and> mimetype file \<in> set allowedMimes \<and>
           length (buffer file) \<le> MAX_SIZE \<and>
           res = ok_response img \<and> images (storage st') uuid = Some img \<and>
           img_data img = data_uri (getImageMetadata e (buffer file)) (buffer file) \<and>
           img_format img =
             js_or_opt (md_format (getImageMetadata e (buffer file)))
               (nth_opt (split_on CHR ''/'' (mimetype file)) 1) \<and>
           img_size img = Some (length (buffer file))"
proof (cases part)
  case None
  with assms show ?thesis
    by (auto simp: multipart_route_def upload_single_def multipart_upload_handler_def
        fail_response_def)
next
  case (Some file0)
  from assms Some have ok: "upload_single (Some file0) = Inr (Some file0)"
    by (auto simp: multipart_route_def upload_single_def split: option.splits if_splits)
  then have m: "mimetype file0 \<in> set allowedMimes" and l: "length (buffer file0) \<le> MAX_SIZE"
    by (auto simp: upload_single_def fileFilter_def split: option.splits if_splits)
  from assms Some ok have "multipart_upload_handler e uuid now (Some file0) st = (res, st')"
    by (auto simp: multipart_route_def split: prod.splits)
  from multipart_handler_result[OF this] Some m l show ?thesis by auto
qed

subsection \<open>Evaluating the scenarios\<close>

lemmas ip_eval = isPrivateIP_def isIPv4_def ipv4_part_ok_def parseInt10_def strip_sign_def
  js_whitespace_def is_digit_def digits_value_def digit_val_def int_toString_def
  nat_toString.simps digit_char_def js_Number_def toLowerCase_def lower_char_def startsWith_def

lemmas demo_eval = demo_env_def demo_new_URL_def demo_dns_lookup_def demo_fetch_def
  demo_sharp_def demo_decode_def demo_file_def

lemmas route_eval = json_upload_handler_def finish_json_upload_def multipart_route_def
  multipart_upload_handler_def upload_single_def fileFilter_def allowedMimes_def
  validateImageUrl_def rejected_def lookup_all_def declared_too_large_def parseInt_def
  getImageMetadata_def storeImage_def make_image_def ok_response_def fail_response_def
  data_uri_def template_str_def js_or_def js_or_opt_def nth_opt_def strip_data_uri_def
  is_lower_az_def MAX_SIZE_def b64_char_def b64_index_def b64_alphabet_def
  broadcastImageUpdate_def start_state_def new_storage_def getImage_def getCurrentImage_def
  is_hex_digit_def hex_digits_value_def hex_val_def

lemma demo_inline_status:
  "status (fst (json_upload_handler demo_env ''id-1'' 5 (Base64Body ''AAAA'' None) start_state)) = 200"
  by (simp add: route_eval demo_eval Let_def)

lemma demo_inline_data:
  "map_option img_data (getImage (storage (snd (json_upload_handler demo_env ''id-1'' 5 (Base64Body ''AAAA'' None) start_state))) ''id-1'')
    = Some ''data:image/unknown;base64,AAAA''"
  by (simp add: route_eval demo_eval Let_def)

lemma demo_url_valid: "valid (validateImageUrl demo_env ''http://img.example/pic.tiff'')"
  by (simp add: route_eval demo_eval ip_eval Let_def)

lemma demo_url_status:
  "status (fst (json_upload_handler demo_env ''id-2'' 6 (UrlBody ''http://img.example/pic.tiff'') start_state)) = 200"
  by (simp add: route_eval demo_eval ip_eval Let_def)

lemma demo_url_data:
  "map_option img_data (getImage (storage (snd (json_upload_handler demo_env ''id-2'' 6 (UrlBody ''http://img.example/pic.tiff'') start_state))) ''id-2'')
    = Some ''data:image/unknown;base64,SUkq''"
  by (simp add: route_eval demo_eval ip_eval Let_def)

lemma demo_multipart:
  "fst (multipart_route demo_env ''id-3'' 7 (Some (demo_file ''image/png'')) start_state) =
     Inr (ok_response (make_image ''id-3'' 7
        \<lparr>ins_type = ''upload'', ins_data = ''data:image/unknown;base64,AQID'',
         ins_filename = Some ''pic.bin'', ins_format = Some ''unknown'', ins_width = None,
         ins_height = None, ins_size = Some 3\<rparr>))"
  by (simp add: route_eval demo_eval Let_def)


subsection \<open>Stored payload\<close>

text \<open>
  Claim C10. Whenever an ingestion succeeds, the payload stored under the new id is
  \<^verbatim>\<open>data:image/\<close> followed by the extracted format, \<^verbatim>\<open>;base64,\<close> and the base64 text of
  the ingested bytes, and decoding the text after that header gives back exactly those
  bytes. The bytes are the decoded inline data, the fetched body, or the uploaded file.
\<close>

theorem stored_payload_is_data_uri:
  "(status (fst (json_upload_handler e uuid now body st)) = 200 \<longrightarrow>
      (\<exists>bytes img. ingested_bytes e body = Some bytes \<and>
         getImage (storage (snd (json_upload_handler e uuid now body st))) uuid = Some img \<and>
         canonical_payload e img bytes)) \<and>
   (\<forall>res. fst (multipart_route e uuid now part st) = Inr res \<and> status res = 200 \<longrightarrow>
      (\<exists>f img. part = Some f \<and>
         getImage (storage (snd (multipart_route e uuid now part st))) uuid = Some img \<and>
         canonical_payload e img (buffer f)))"
proof (intro conjI impI allI)
  assume ok: "status (fst (json_upload_handler e uuid now body st)) = 200"
  obtain res st' where r: "json_upload_handler e uuid now body st = (res, st')"
    by (cases "json_upload_handler e uuid now body st") auto
  show "\<exists>bytes img. ingested_bytes e body = Some bytes \<and>
         getImage (storage (snd (json_upload_handler e uuid now body st))) uuid = Some img \<and>
         canonical_payload e img bytes"
  proof (cases body)
    case (Base64Body data md)
    from inline_upload_result[OF r[unfolded Base64Body]] Base64Body r show ?thesis
      by (auto simp: getImage_def intro: canonical_payload_data_uri)
  next
    case (UrlBody url)
    from ok r have "status res = 200" by simp
    from url_upload_success[OF r[unfolded UrlBody] this] UrlBody r show ?thesis
      by (auto simp: getImage_def intro: canonical_payload_data_uri)
  next
    case InvalidBody
    with ok show ?thesis by (simp add: json_upload_handler_def fail_response_def)
  qed
next
  fix res
  assume a: "fst (multipart_route e uuid now part st) = Inr res \<and> status res = 200"
  obtain st' where r: "multipart_route e uuid now part st = (Inr res, st')"
    using a by (cases "multipart_route e uuid now part st") auto
  from multipart_route_success[OF r] a r
  show "\<exists>f img. part = Some f \<and>
         getImage (storage (snd (multipart_route e uuid now part st))) uuid = Some img \<and>
         canonical_payload e img (buffer f)"
    by (auto simp: getImage_def intro: canonical_payload_data_uri)
qed

theorem stored_payload_is_data_uri_witness:
  "status (fst (json_upload_handler demo_env ''id-2'' 6 (UrlBody ''http://img.example/pic.tiff'')
      start_state)) = 200 \<and>
   (\<exists>img. getImage (storage (snd (json_upload_handler demo_env ''id-2'' 6
              (UrlBody ''http://img.example/pic.tiff'') start_state))) ''id-2'' = Some img \<and>
          canonical_payload demo_env img [73, 73, 42] \<and>
          img_data img = ''data:image/unknown;base64,SUkq'') \<and>
   fst (multipart_route demo_env ''id-3'' 7 (Some (demo_file ''image/png'')) start_state)
     = Inr (ok_response (make_image ''id-3'' 7
        \<lparr>ins_type = ''upload'', ins_data = ''data:image/unknown;base64,AQID'',
         ins_filename = Some ''pic.bin'', ins_format = Some ''unknown'', ins_width = None,
         ins_height = None, ins_size = Some 3\<rparr>)) \<and>
   (\<exists>img. getImage (storage (snd (multipart_route demo_env ''id-3'' 7
              (Some (demo_file ''image/png'')) start_state))) ''id-3'' = Some img \<and>
          canonical_payload demo_env img [1, 2, 3])"
proof -
  let ?u = "UrlBody ''http://img.example/pic.tiff''"
  have b: "ingested_bytes demo_env ?u = Some [73, 73, 42]"
    by (simp add: demo_eval)
  have m: "fst (multipart_route demo_env ''id-3'' 7 (Some (demo_file ''image/png'')) start_state)
     = Inr (ok_response (make_image ''id-3'' 7
        \<lparr>ins_type = ''upload'', ins_data = ''data:image/unknown;base64,AQID'',
         ins_filename = Some ''pic.bin'', ins_format = Some ''unknown'', ins_width = None,
         ins_height = None, ins_size = Some 3\<rparr>))"
    by (rule demo_multipart)
  have bf: "buffer (demo_file ''image/png'') = [1, 2, 3]" by (simp add: demo_file_def)
  have ms: "status (ok_response (make_image ''id-3'' 7
        \<lparr>ins_type = ''upload'', ins_data = ''data:image/unknown;base64,AQID'',
         ins_filename = Some ''pic.bin'', ins_format = Some ''unknown'', ins_width = None,
         ins_height = None, ins_size = Some 3\<rparr>)) = 200"
    by (simp add: ok_response_def)
  note t = stored_payload_is_data_uri[of demo_env "''id-2''" 6 ?u start_state None]
  from t demo_url_status b demo_url_data
  have 1: "\<exists>img. getImage (storage (snd (json_upload_handler demo_env ''id-2'' 6 ?u start_state)))
              ''id-2'' = Some img \<and>
          canonical_payload demo_env img [73, 73, 42] \<and>
          img_data img = ''data:image/unknown;base64,SUkq''"
    by auto
  from stored_payload_is_data_uri[of demo_env "''id-3''" 7 "InvalidBody" start_state
      "Some (demo_file ''image/png'')"] m ms bf
  have 2: "\<exists>img. getImage (storage (snd (multipart_route demo_env ''id-3'' 7
              (Some (demo_file ''image/png'')) start_state))) ''id-3'' = Some img \<and>
          canonical_payload demo_env img [1, 2, 3]"
    by auto
  show ?thesis using demo_url_status 1 m 2 by blast
qed

subsection \<open>Metadata extraction\<close>

lemma url_upload_passes:
  assumes "valid (validateImageUrl e url)" and "fetch e url = Some response" and "ok response"
    and "content_type response = Some ct" and "startsWith ct ''image/''"
    and "\<not> declared_too_large (content_length response)"
    and "arrayBuffer response = Some bytes" and "length bytes \<le> MAX_SIZE"
  shows "json_upload_handler e uuid now (UrlBody url) st =
           finish_json_upload e uuid now ''url'' bytes
             (js_or (Some (last (split_on CHR ''/'' url))) ''url-image'')
             (js_or (nth_opt (split_on CHR ''/'' ct) 1) ''unknown'')
             (st\<lparr>fetched := fetched st @ [url]\<rparr>)"
  using assms by (simp add: json_upload_handler_def Let_def)

lemma finish_json_upload_degraded:
  assumes "sharp e bytes = None"
  shows "status (fst (finish_json_upload e uuid now ty bytes filename format st)) = 200 \<and>
         (\<exists>img. getImage (storage (snd (finish_json_upload e uuid now ty bytes filename format st)))
                  uuid = Some img \<and> degraded_image img (length bytes))"
  using assms
  by (simp add: finish_json_upload_def storeImage_def Let_def ok_response_def make_image_def
      getImage_def degraded_image_def getImageMetadata_failure js_or_opt_def)

text \<open>
  Claim C9. The extractor returns a value for every buffer, and its size is the length of
  the buffer. When \<^verbatim>\<open>sharp\<close> fails on the buffer, the value has format \<^verbatim>\<open>unknown\<close> and no
  width or height, and the ingestion goes on to succeed on each of the three routes (given,
  for a URL, that the validation and the fetch passed, and for an upload, that the
  middleware let the file through): the image is stored with exactly that metadata.
\<close>

theorem extraction_failure_degrades:
  "md_size (getImageMetadata e buf) = length buf \<and>
   (sharp e buf = None \<longrightarrow>
      getImageMetadata e buf =
        \<lparr>md_width = None, md_height = None, md_format = Some ''unknown'', md_size = length buf\<rparr>) \<and>
   (sharp e (Buffer_from_base64 e (strip_data_uri data)) = None \<longrightarrow>
      status (fst (json_upload_handler e uuid now (Base64Body data md) st)) = 200 \<and>
      (\<exists>img. getImage (storage (snd (json_upload_handler e uuid now (Base64Body data md) st))) uuid
               = Some img \<and>
             degraded_image img (length (Buffer_from_base64 e (strip_data_uri data))))) \<and>
   (valid (validateImageUrl e url) \<and> fetch e url = Some response \<and> ok response \<and>
    content_type response = Some ct \<and> startsWith ct ''image/'' \<and>
    \<not> declared_too_large (content_length response) \<and>
    arrayBuffer response = Some bytes \<and> length bytes \<le> MAX_SIZE \<and> sharp e bytes = None \<longrightarrow>
      status (fst (json_upload_handler e uuid now (UrlBody url) st)) = 200 \<and>
      (\<exists>img. getImage (storage (snd (json_upload_handler e uuid now (UrlBody url) st))) uuid
               = Some img \<and>
             degraded_image img (length bytes))) \<and>
   (mimetype f \<in> set allowedMimes \<and> length (buffer f) \<le> MAX_SIZE \<and> sharp e (buffer f) = None \<longrightarrow>
      (\<exists>img. fst (multipart_route e uuid now (Some f) st) = Inr (ok_response img) \<and>
             getImage (storage (snd (multipart_route e uuid now (Some f) st))) uuid = Some img \<and>
             degraded_image img (length (buffer f))))"
proof (intro conjI impI)
  show "md_size (getImageMetadata e buf) = length buf" by simp
next
  assume "sharp e buf = None"
  then show "getImageMetadata e buf =
        \<lparr>md_width = None, md_height = None, md_format = Some ''unknown'', md_size = length buf\<rparr>"
    by (rule getImageMetadata_failure)
next
  assume a: "sharp e (Buffer_from_base64 e (strip_data_uri data)) = None"
  have h: "json_upload_handler e uuid now (Base64Body data md) st =
             finish_json_upload e uuid now ''base64'' (Buffer_from_base64 e (strip_data_uri data))
               (js_or (case md of None \<Rightarrow> None | Some m \<Rightarrow> bm_filename m) ''base64-image'')
               (js_or (case md of None \<Rightarrow> None | Some m \<Rightarrow> bm_format m) ''unknown'') st"
    by (simp add: json_upload_handler_def Let_def)
  from finish_json_upload_degraded[OF a]
  show "status (fst (json_upload_handler e uuid now (Base64Body data md) st)) = 200"
    and "\<exists>img. getImage (storage (snd (json_upload_handler e uuid now (Base64Body data md) st))) uuid
               = Some img \<and>
             degraded_image img (length (Buffer_from_base64 e (strip_data_uri data)))"
    unfolding h by blast+
next
  assume a: "valid (validateImageUrl e url) \<and> fetch e url = Some response \<and> ok response \<and>
    content_type response = Some ct \<and> startsWith ct ''image/'' \<and>
    \<not> declared_too_large (content_length response) \<and>
    arrayBuffer response = Some bytes \<and> length bytes \<le> MAX_SIZE \<and> sharp e bytes = None"
  then have h: "json_upload_handler e uuid now (UrlBody url) st =
           finish_json_upload e uuid now ''url'' bytes
             (js_or (Some (last (split_on CHR ''/'' url))) ''url-image'')
             (js_or (nth_opt (split_on CHR ''/'' ct) 1) ''unknown'')
             (st\<lparr>fetched := fetched st @ [url]\<rparr>)"
    using url_upload_passes[of e url response ct bytes uuid now st] by blast
  from a have s: "sharp e bytes = None" by blast
  from finish_json_upload_degraded[OF s]
  show "status (fst (json_upload_handler e uuid now (UrlBody url) st)) = 200"
    and "\<exists>img. getImage (storage (snd (json_upload_handler e uuid now (UrlBody url) st))) uuid
               = Some img \<and> degraded_image img (length bytes)"
    unfolding h by blast+
next
  assume a: "mimetype f \<in> set allowedMimes \<and> length (buffer f) \<le> MAX_SIZE \<and> sharp e (buffer f) = None"
  then show "\<exists>img. fst (multipart_route e uuid now (Some f) st) = Inr (ok_response img) \<and>
             getImage (storage (snd (multipart_route e uuid now (Some f) st))) uuid = Some img \<and>
             degraded_image img (length (buffer f))"
    by (simp add: multipart_route_def upload_single_def fileFilter_def
        multipart_upload_handler_def storeImage_def Let_def make_image_def getImage_def
        degraded_image_def getImageMetadata_failure js_or_opt_def)
qed

lemma demo_inline_bytes: "Buffer_from_base64 demo_env (strip_data_uri ''AAAA'') = [0, 0, 0]"
  by (simp add: route_eval demo_eval)

lemma demo_broken_valid: "valid (validateImageUrl demo_env ''http://img.example/broken.png'')"
  by (simp add: route_eval demo_eval ip_eval Let_def)

theorem extraction_failure_degrades_witness:
  "getImageMetadata demo_env [0, 0, 0] =
     \<lparr>md_width = None, md_height = None, md_format = Some ''unknown'', md_size = 3\<rparr> \<and>
   status (fst (json_upload_handler demo_env ''id-1'' 5 (Base64Body ''AAAA'' None) start_state)) = 200 \<and>
   (\<exists>img. getImage (storage (snd (json_upload_handler demo_env ''id-1'' 5
              (Base64Body ''AAAA'' None) start_state))) ''id-1'' = Some img \<and>
          degraded_image img 3) \<and>
   status (fst (json_upload_handler demo_env ''id-4'' 8 (UrlBody ''http://img.example/broken.png'')
      start_state)) = 200 \<and>
   (\<exists>img. getImage (storage (snd (json_upload_handler demo_env ''id-4'' 8
              (UrlBody ''http://img.example/broken.png'') start_state))) ''id-4'' = Some img \<and>
          degraded_image img 2) \<and>
   (\<exists>img. fst (multipart_route demo_env ''id-3'' 7 (Some (demo_file ''image/png'')) start_state)
            = Inr (ok_response img) \<and>
          getImage (storage (snd (multipart_route demo_env ''id-3'' 7
            (Some (demo_file ''image/png'')) start_state))) ''id-3'' = Some img \<and>
          degraded_image img 3)"
proof -
  let ?r = "\<lparr>ok = True, content_type = Some ''image/png'', content_length = None,
              arrayBuffer = Some [137, 80]\<rparr>"
  have s1: "sharp demo_env [0, 0, 0] = None" by (simp add: demo_eval)
  have s2: "sharp demo_env [137, 80] = None" by (simp add: demo_eval)
  have s3: "sharp demo_env (buffer (demo_file ''image/png'')) = None" by (simp add: demo_eval)
  have f: "fetch demo_env ''http://img.example/broken.png'' = Some ?r" by (simp add: demo_eval)
  have c: "startsWith ''image/png'' ''image/''" by (simp add: startsWith_def)
  have d: "\<not> declared_too_large (content_length ?r)" by (simp add: declared_too_large_def)
  have m: "mimetype (demo_file ''image/png'') \<in> set allowedMimes"
    by (simp add: demo_file_def allowedMimes_def)
  have l: "length (buffer (demo_file ''image/png'')) \<le> MAX_SIZE"
    by (simp add: demo_file_def MAX_SIZE_def)
  have l2: "length [137, 80 :: byte] \<le> MAX_SIZE" by (simp add: MAX_SIZE_def)
  have b3: "length (buffer (demo_file ''image/png'')) = 3" by (simp add: demo_file_def)
  note t = extraction_failure_degrades[of demo_env "[0, 0, 0]" "''AAAA''" "''id-1''" 5 None
      start_state "''http://img.example/broken.png''" ?r "''image/png''" "[137, 80]"
      "demo_file ''image/png''"]
  note t2 = extraction_failure_degrades[of demo_env "[0, 0, 0]" "''AAAA''" "''id-4''" 8 None
      start_state "''http://img.example/broken.png''" ?r "''image/png''" "[137, 80]"
      "demo_file ''image/png''"]
  note t3 = extraction_failure_degrades[of demo_env "[0, 0, 0]" "''AAAA''" "''id-3''" 7 None
      start_state "''http://img.example/broken.png''" ?r "''image/png''" "[137, 80]"
      "demo_file ''image/png''"]
  have "getImageMetadata demo_env [0, 0, 0] =
     \<lparr>md_width = None, md_height = None, md_format = Some ''unknown'',
      md_size = length [0, 0, 0 :: byte]\<rparr>"
    using t[THEN conjunct2, THEN conjunct1] s1 by blast
  then have 1: "getImageMetadata demo_env [0, 0, 0] =
     \<lparr>md_width = None, md_height = None, md_format = Some ''unknown'', md_size = 3\<rparr>"
    by simp
  have "status (fst (json_upload_handler demo_env ''id-1'' 5 (Base64Body ''AAAA'' None) start_state)) = 200 \<and>
   (\<exists>img. getImage (storage (snd (json_upload_handler demo_env ''id-1'' 5
              (Base64Body ''AAAA'' None) start_state))) ''id-1'' = Some img \<and>
          degraded_image img (length (Buffer_from_base64 demo_env (strip_data_uri ''AAAA''))))"
    using t[THEN conjunct2, THEN conjunct2, THEN conjunct1] s1 demo_inline_bytes by simp
  then have 2: "status (fst (json_upload_handler demo_env ''id-1'' 5 (Base64Body ''AAAA'' None) start_state)) = 200 \<and>
   (\<exists>img. getImage (storage (snd (json_upload_handler demo_env ''id-1'' 5
              (Base64Body ''AAAA'' None) start_state))) ''id-1'' = Some img \<and>
          degraded_image img 3)"
    unfolding demo_inline_bytes by (simp add: numeral_3_eq_3)
  have "status (fst (json_upload_handler demo_env ''id-4'' 8 (UrlBody ''http://img.example/broken.png'')
      start_state)) = 200 \<and>
   (\<exists>img. getImage (storage (snd (json_upload_handler demo_env ''id-4'' 8
              (UrlBody ''http://img.example/broken.png'') start_state))) ''id-4'' = Some img \<and>
          degraded_image img (length [137, 80 :: byte]))"
    using t2[THEN conjunct2, THEN conjunct2, THEN conjunct2, THEN conjunct1]
      demo_broken_valid f c d l2 s2 by simp
  then have 3: "status (fst (json_upload_handler demo_env ''id-4'' 8 (UrlBody ''http://img.example/broken.png'')
      start_state)) = 200 \<and>
   (\<exists>img. getImage (storage (snd (json_upload_handler demo_env ''id-4'' 8
              (UrlBody ''http://img.example/broken.png'') start_state))) ''id-4'' = Some img \<and>
          degraded_image img 2)"
    by (simp add: numeral_2_eq_2)
  have 4: "\<exists>img. fst (multipart_route demo_env ''id-3'' 7 (Some (demo_file ''image/png'')) start_state)
            = Inr (ok_response img) \<and>
          getImage (storage (snd (multipart_route demo_env ''id-3'' 7
            (Some (demo_file ''image/png'')) start_state))) ''id-3'' = Some img \<and>
          degraded_image img 3"
    using t3[THEN conjunct2, THEN conjunct2, THEN conjunct2, THEN conjunct2] m l s3
    unfolding b3 by blast
  show ?thesis using 1 2 3 4 by blast
qed

subsection \<open>Size ceiling and format fallback\<close>

lemma length_oversized_buffer: "length oversized_buffer = MAX_SIZE + 1"
  by (simp add: oversized_buffer_def)

lemma strip_data_uri_png: "strip_data_uri (''data:image/png;base64,'' @ x) = x"
  by (simp add: strip_data_uri_def is_lower_az_def)

lemma demo_decode_encode: "demo_decode (base64_encode bs) = bs"
  by (simp add: demo_decode_def base64_roundtrip)

text \<open>
  Claim C1, at the failing input. An inline request whose data decodes to a buffer one byte
  over the ceiling of 10 MiB is answered 200, and the image is stored with its full size:
  the inline branch of the JSON route has no size check.
\<close>

theorem inline_upload_over_ceiling_accepted:
  "length oversized_buffer = 10485761 \<and> MAX_SIZE = 10485760 \<and>
   Buffer_from_base64 demo_env
     (strip_data_uri (''data:image/png;base64,'' @ base64_encode oversized_buffer))
     = oversized_buffer \<and>
   status (fst (json_upload_handler demo_env ''id-big'' 5
     (Base64Body (''data:image/png;base64,'' @ base64_encode oversized_buffer) None)
     start_state)) = 200 \<and>
   map_option img_size (getImage (storage (snd (json_upload_handler demo_env ''id-big'' 5
     (Base64Body (''data:image/png;base64,'' @ base64_encode oversized_buffer) None)
     start_state))) ''id-big'') = Some (Some 10485761)"
proof -
  let ?data = "''data:image/png;base64,'' @ base64_encode oversized_buffer"
  have l: "length oversized_buffer = 10485761"
    by (simp add: oversized_buffer_def MAX_SIZE_def)
  have d: "Buffer_from_base64 demo_env (strip_data_uri ?data) = oversized_buffer"
    unfolding strip_data_uri_png by (simp add: demo_env_def demo_decode_encode)
  obtain res st' where r: "json_upload_handler demo_env ''id-big'' 5 (Base64Body ?data None)
      start_state = (res, st')"
    by (cases "json_upload_handler demo_env ''id-big'' 5 (Base64Body ?data None) start_state") auto
  from inline_upload_result[OF r] obtain img where
    i: "res = ok_response img" "images (storage st') ''id-big'' = Some img"
       "img_size img = Some (length (Buffer_from_base64 demo_env (strip_data_uri ?data)))"
    by blast
  from i r d l show ?thesis
    by (simp add: getImage_def ok_response_def MAX_SIZE_def)
qed

text \<open>
  Claim C5, at the failing input. An inline request declares the format \<^verbatim>\<open>png\<close> and carries
  bytes on which the extraction fails; the image is stored with the format \<^verbatim>\<open>unknown\<close>,
  not with the declared one.
\<close>

theorem format_hint_ignored_on_failed_extraction:
  "sharp demo_env (Buffer_from_base64 demo_env (strip_data_uri ''AAAA'')) = None \<and>
   map_option img_format (getImage (storage (snd (json_upload_handler demo_env ''id-1'' 5
     (Base64Body ''AAAA'' (Some \<lparr>bm_filename = None, bm_format = Some ''png''\<rparr>))
     start_state))) ''id-1'') = Some (Some ''unknown'')"
  by (simp add: route_eval demo_eval Let_def)

text \<open>The fallback of both routes, in general: the stored format is the extractor's
  unless that is undefined or empty, and the extractor answers \<^verbatim>\<open>unknown\<close> on failure.\<close>

lemma stored_format_inline:
  "map_option img_format (getImage (storage (snd (json_upload_handler e uuid now
      (Base64Body data md) st))) uuid) =
   Some (js_or_opt (md_format (getImageMetadata e (Buffer_from_base64 e (strip_data_uri data))))
     (Some (js_or (case md of None \<Rightarrow> None | Some m \<Rightarrow> bm_format m) ''unknown'')))"
proof -
  obtain res st' where r: "json_upload_handler e uuid now (Base64Body data md) st = (res, st')"
    by (cases "json_upload_handler e uuid now (Base64Body data md) st") auto
  from inline_upload_result[OF r] r show ?thesis by (auto simp: getImage_def)
qed

subsection \<open>URL safety validator\<close>

lemma any_private_iff: "any_private rs = list_ex (\<lambda>r. isPrivateIP (address r)) rs"
  by (induction rs) auto

lemma rejection_reasons_member:
  "''Invalid URL format'' \<in> set rejection_reasons"
  "''Only HTTP and HTTPS protocols are allowed'' \<in> set rejection_reasons"
  "''Localhost URLs are not allowed'' \<in> set rejection_reasons"
  "''Private IP addresses are not allowed'' \<in> set rejection_reasons"
  "''Failed to resolve hostname'' \<in> set rejection_reasons"
  "''URL resolves to a private IP address'' \<in> set rejection_reasons"
  unfolding rejection_reasons_def by (rule ListMem_iff[THEN iffD1], intro ListMem.intros)+

lemma validateImageUrl_rejected_or_valid:
  "validateImageUrl e u = \<lparr>valid = True, error = None\<rparr> \<or>
   (\<exists>reason \<in> set rejection_reasons. validateImageUrl e u = rejected reason)"
  unfolding validateImageUrl_def Let_def
  using rejection_reasons_member
  by (cases "new_URL e u") (simp_all del: set_simps, blast+)

lemma valid_rejected [simp]: "\<not> valid (rejected reason)" "error (rejected reason) = Some reason"
  by (simp_all add: rejected_def)

lemma rejection_reasons_nonempty: "reason \<in> set rejection_reasons \<Longrightarrow> reason \<noteq> []"
  unfolding rejection_reasons_def by force

text \<open>
  What a rejection does. The validator asks the resolver for all addresses of the host
  name. If the lookup fails, returns no address, or returns anywhere in its answer an
  address that \<open>isPrivateIP\<close> takes for private, the URL is rejected. Every rejection, for
  that or any other cause, carries one of the validator's fixed, non-empty reasons; the
  route answers 400 with that reason as its message and leaves the state as it was: no
  URL is handed to \<^verbatim>\<open>fetch\<close>, nothing is stored and nothing is sent.
\<close>

theorem url_rejection_aborts_before_fetch:
  "(new_URL e u = Some url \<and>
    (dns_lookup e (toLowerCase (hostname url)) = None \<or>
     (\<exists>rs. dns_lookup e (toLowerCase (hostname url)) = Some rs \<and>
           (rs = [] \<or> list_ex (\<lambda>r. isPrivateIP (address r)) rs)))
      \<longrightarrow> \<not> valid (validateImageUrl e u)) \<and>
   (\<not> valid (validateImageUrl e u) \<longrightarrow>
      (\<exists>reason. reason \<in> set rejection_reasons \<and> reason \<noteq> [] \<and>
         validateImageUrl e u = rejected reason \<and>
         json_upload_handler e uuid now (UrlBody u) st = (fail_response 400 reason, st)))"
proof (intro conjI impI)
  assume a: "new_URL e u = Some url \<and>
    (dns_lookup e (toLowerCase (hostname url)) = None \<or>
     (\<exists>rs. dns_lookup e (toLowerCase (hostname url)) = Some rs \<and>
           (rs = [] \<or> list_ex (\<lambda>r. isPrivateIP (address r)) rs)))"
  then have "lookup_all e (toLowerCase (hostname url)) = [] \<or>
             any_private (lookup_all e (toLowerCase (hostname url)))"
    by (auto simp: lookup_all_def any_private_iff)
  with a show "\<not> valid (validateImageUrl e u)"
    by (auto simp: validateImageUrl_def Let_def)
next
  assume n: "\<not> valid (validateImageUrl e u)"
  with validateImageUrl_rejected_or_valid[of e u]
  obtain reason where r: "reason \<in> set rejection_reasons" "validateImageUrl e u = rejected reason"
    by auto
  from r(1) have ne: "reason \<noteq> []" by (rule rejection_reasons_nonempty)
  from r(2) ne have "json_upload_handler e uuid now (UrlBody u) st = (fail_response 400 reason, st)"
    by (simp add: json_upload_handler_def Let_def js_or_def)
  with r ne show "\<exists>reason. reason \<in> set rejection_reasons \<and> reason \<noteq> [] \<and>
         validateImageUrl e u = rejected reason \<and>
         json_upload_handler e uuid now (UrlBody u) st = (fail_response 400 reason, st)"
    by blast
qed

lemma demo_mixed_validation:
  "validateImageUrl demo_env ''http://mixed.example/a.png'' =
     rejected ''URL resolves to a private IP address''"
  by (simp add: route_eval demo_eval ip_eval Let_def)

theorem url_rejection_aborts_before_fetch_witness:
  "new_URL demo_env ''http://mixed.example/a.png''
     = Some \<lparr>protocol = ''http:'', hostname = ''mixed.example''\<rparr> \<and>
   dns_lookup demo_env ''mixed.example''
     = Some [\<lparr>address = ''93.184.216.34'', family = 4\<rparr>, \<lparr>address = ''10.0.0.5'', family = 4\<rparr>] \<and>
   \<not> isPrivateIP ''93.184.216.34'' \<and> isPrivateIP ''10.0.0.5'' \<and>
   \<not> valid (validateImageUrl demo_env ''http://mixed.example/a.png'') \<and>
   json_upload_handler demo_env ''id-9'' 9 (UrlBody ''http://mixed.example/a.png'') start_state
     = (fail_response 400 ''URL resolves to a private IP address'', start_state) \<and>
   fetched start_state = []"
proof -
  let ?u = "''http://mixed.example/a.png''"
  let ?url = "\<lparr>protocol = ''http:'', hostname = ''mixed.example''\<rparr>"
  let ?rs = "[\<lparr>address = ''93.184.216.34'', family = 4\<rparr>, \<lparr>address = ''10.0.0.5'', family = 4\<rparr>]"
  have p: "new_URL demo_env ?u = Some ?url" by (simp add: demo_eval)
  have h: "toLowerCase (hostname ?url) = ''mixed.example''"
    by (simp add: toLowerCase_def lower_char_def)
  have d: "dns_lookup demo_env ''mixed.example'' = Some ?rs" by (simp add: demo_eval)
  have a1: "\<not> isPrivateIP ''93.184.216.34''" by (simp add: ip_eval)
  have a2: "isPrivateIP ''10.0.0.5''" by (simp add: ip_eval)
  have ex: "list_ex (\<lambda>r. isPrivateIP (address r)) ?rs" using a2 by simp
  note t = url_rejection_aborts_before_fetch[of demo_env ?u ?url "''id-9''" 9 start_state]
  from t[THEN conjunct1] p h d ex
  have nv: "\<not> valid (validateImageUrl demo_env ?u)" by simp
  with t[THEN conjunct2] obtain reason where
    r: "validateImageUrl demo_env ?u = rejected reason"
       "json_upload_handler demo_env ''id-9'' 9 (UrlBody ?u) start_state
          = (fail_response 400 reason, start_state)"
    by blast
  from r(1) demo_mixed_validation have "reason = ''URL resolves to a private IP address''"
    by (simp add: rejected_def)
  with r(2) have j: "json_upload_handler demo_env ''id-9'' 9 (UrlBody ?u) start_state
     = (fail_response 400 ''URL resolves to a private IP address'', start_state)"
    by simp
  have f: "fetched start_state = []" by (simp add: start_state_def)
  show ?thesis using p d a1 a2 nv j f by blast
qed

text \<open>
  Claim C2, at the failing input. The host of the URL resolves to \<^verbatim>\<open>febf::1\<close>, an address
  of the link-local block \<^verbatim>\<open>fe80::/10\<close>. The validator lets the URL pass, the route hands
  it to \<^verbatim>\<open>fetch\<close>, stores the body and answers 200: the classifier that the validator
  applies to each resolved address does not know the address as private.
\<close>

theorem host_resolving_to_link_local_is_fetched:
  "dns_lookup link_local_env ''ll.example'' = Some [\<lparr>address = ''febf::1'', family = 6\<rparr>] \<and>
   validateImageUrl link_local_env ''http://ll.example/a.png'' = \<lparr>valid = True, error = None\<rparr> \<and>
   status (fst (json_upload_handler link_local_env ''id-7'' 9 (UrlBody ''http://ll.example/a.png'')
      start_state)) = 200 \<and>
   fetched (snd (json_upload_handler link_local_env ''id-7'' 9 (UrlBody ''http://ll.example/a.png'')
      start_state)) = [''http://ll.example/a.png''] \<and>
   map_option img_data (getImage (storage (snd (json_upload_handler link_local_env ''id-7'' 9
      (UrlBody ''http://ll.example/a.png'') start_state))) ''id-7'')
     = Some ''data:image/unknown;base64,iVA=''"
  by (simp add: route_eval demo_eval ip_eval link_local_env_def Let_def)

text \<open>
  Claim C3, at the failing input. \<^verbatim>\<open>febf::1\<close> lies in the link-local block \<^verbatim>\<open>fe80::/10\<close>,
  which spans \<^verbatim>\<open>fe80::\<close> to \<^verbatim>\<open>febf:ffff:...\<close>, and the classifier answers that it is not
  private: its test is the textual prefix \<^verbatim>\<open>fe80:\<close>. In the other direction, \<^verbatim>\<open>fc::1\<close>
  (the address \<^verbatim>\<open>00fc::1\<close>, outside every listed block) is answered private by the textual
  prefix \<^verbatim>\<open>fc\<close>.
\<close>

theorem link_local_block_partly_classified:
  "isPrivateIP ''fe80::1'' \<and> \<not> isPrivateIP ''febf::1'' \<and> \<not> isPrivateIP ''fe90::1'' \<and>
   isPrivateIP ''fc::1''"
  by (simp add: ip_eval)

subsection \<open>Accepted media types\<close>

lemma finish_json_upload_status [simp]:
  "status (fst (finish_json_upload e uuid now ty bytes filename format st)) = 200"
  by (simp add: finish_json_upload_def storeImage_def Let_def ok_response_def)

lemma sent_unchanged_on_failure:
  "status (fst (json_upload_handler e uuid now (UrlBody url) st)) \<noteq> 200 \<Longrightarrow>
     storage (snd (json_upload_handler e uuid now (UrlBody url) st)) = storage st \<and>
     sent (snd (json_upload_handler e uuid now (UrlBody url) st)) = sent st"
  by (auto simp: json_upload_handler_def Let_def fail_response_def split: option.splits if_splits)

text \<open>
  The two checks of the declared media type. The multipart route refuses, before its handler runs and
  with the state untouched, every upload whose declared type is not one of
  \<^verbatim>\<open>image/jpeg\<close>, \<^verbatim>\<open>image/png\<close>, \<^verbatim>\<open>image/gif\<close>, \<^verbatim>\<open>image/webp\<close>. The URL branch answers 400
  and stores and sends nothing when the response has no content type or one that does not
  start with \<^verbatim>\<open>image/\<close>; every type that does start with \<^verbatim>\<open>image/\<close> passes this check,
  so that a response which also passes the size checks is stored.
\<close>

theorem media_type_gates:
  "(mimetype f \<notin> set allowedMimes \<longrightarrow>
      multipart_route e uuid now (Some f) st =
        (Inl (FileFilterError ''Invalid file type. Only JPEG, PNG, GIF, and WebP are allowed.''),
         st)) \<and>
   (fetch e url = Some response \<and>
    (content_type response = None \<or>
     (\<exists>ct. content_type response = Some ct \<and> \<not> startsWith ct ''image/'')) \<longrightarrow>
      status (fst (json_upload_handler e uuid now (UrlBody url) st)) = 400 \<and>
      storage (snd (json_upload_handler e uuid now (UrlBody url) st)) = storage st \<and>
      sent (snd (json_upload_handler e uuid now (UrlBody url) st)) = sent st) \<and>
   (valid (validateImageUrl e url) \<and> fetch e url = Some response \<and> ok response \<and>
    content_type response = Some ct \<and> startsWith ct ''image/'' \<and>
    \<not> declared_too_large (content_length response) \<and>
    arrayBuffer response = Some bytes \<and> length bytes \<le> MAX_SIZE \<longrightarrow>
      status (fst (json_upload_handler e uuid now (UrlBody url) st)) = 200)"
proof (intro conjI impI)
  assume "mimetype f \<notin> set allowedMimes"
  then show "multipart_route e uuid now (Some f) st =
        (Inl (FileFilterError ''Invalid file type. Only JPEG, PNG, GIF, and WebP are allowed.''),
         st)"
    by (simp add: multipart_route_def upload_single_def fileFilter_def)
next
  assume a: "fetch e url = Some response \<and>
    (content_type response = None \<or>
     (\<exists>ct. content_type response = Some ct \<and> \<not> startsWith ct ''image/''))"
  then have s: "status (fst (json_upload_handler e uuid now (UrlBody url) st)) = 400"
    by (auto simp: json_upload_handler_def Let_def fail_response_def)
  then show "status (fst (json_upload_handler e uuid now (UrlBody url) st)) = 400" .
  from s have "status (fst (json_upload_handler e uuid now (UrlBody url) st)) \<noteq> 200" by simp
  from sent_unchanged_on_failure[OF this]
  show "storage (snd (json_upload_handler e uuid now (UrlBody url) st)) = storage st"
    and "sent (snd (json_upload_handler e uuid now (UrlBody url) st)) = sent st"
    by blast+
next
  assume a: "valid (validateImageUrl e url) \<and> fetch e url = Some response \<and> ok response \<and>
    content_type response = Some ct \<and> startsWith ct ''image/'' \<and>
    \<not> declared_too_large (content_length response) \<and>
    arrayBuffer response = Some bytes \<and> length bytes \<le> MAX_SIZE"
  then have "json_upload_handler e uuid now (UrlBody url) st =
           finish_json_upload e uuid now ''url'' bytes
             (js_or (Some (last (split_on CHR ''/'' url))) ''url-image'')
             (js_or (nth_opt (split_on CHR ''/'' ct) 1) ''unknown'')
             (st\<lparr>fetched := fetched st @ [url]\<rparr>)"
    using url_upload_passes[of e url response ct bytes uuid now st] by blast
  then show "status (fst (json_upload_handler e uuid now (UrlBody url) st)) = 200" by simp
qed

text \<open>
  Claim C4, at the failing input. The response to a URL ingestion declares the content
  type \<^verbatim>\<open>image/tiff\<close>, which is outside the whitelist; the URL branch tests only the
  prefix \<^verbatim>\<open>image/\<close>, so the body is stored and the request is answered 200, where the
  multipart route refuses a file of the same declared type.
\<close>

theorem url_accepts_type_outside_whitelist:
  "''image/tiff'' \<notin> set allowedMimes \<and>
   map_option content_type (fetch demo_env ''http://img.example/pic.tiff'')
     = Some (Some ''image/tiff'') \<and>
   status (fst (json_upload_handler demo_env ''id-2'' 6 (UrlBody ''http://img.example/pic.tiff'')
      start_state)) = 200 \<and>
   map_option img_data (getImage (storage (snd (json_upload_handler demo_env ''id-2'' 6
      (UrlBody ''http://img.example/pic.tiff'') start_state))) ''id-2'')
     = Some ''data:image/unknown;base64,SUkq'' \<and>
   multipart_route demo_env ''id-2'' 6 (Some (demo_file ''image/tiff'')) start_state =
     (Inl (FileFilterError ''Invalid file type. Only JPEG, PNG, GIF, and WebP are allowed.''),
      start_state)"
proof -
  have 1: "''image/tiff'' \<notin> set allowedMimes" by (simp add: allowedMimes_def)
  have 2: "map_option content_type (fetch demo_env ''http://img.example/pic.tiff'')
     = Some (Some ''image/tiff'')"
    by (simp add: demo_eval)
  have 3: "multipart_route demo_env ''id-2'' 6 (Some (demo_file ''image/tiff'')) start_state =
     (Inl (FileFilterError ''Invalid file type. Only JPEG, PNG, GIF, and WebP are allowed.''),
      start_state)"
    by (simp add: multipart_route_def upload_single_def fileFilter_def allowedMimes_def
        demo_file_def)
  show ?thesis using 1 2 3 demo_url_status demo_url_data by blast
qed

theorem media_type_gates_witness:
  "mimetype (demo_file ''image/bmp'') \<notin> set allowedMimes \<and>
   multipart_route demo_env ''id-5'' 9 (Some (demo_file ''image/bmp'')) start_state =
     (Inl (FileFilterError ''Invalid file type. Only JPEG, PNG, GIF, and WebP are allowed.''),
      start_state) \<and>
   map_option content_type (fetch demo_env ''http://img.example/page.html'')
     = Some (Some ''text/html'') \<and>
   status (fst (json_upload_handler demo_env ''id-5'' 9 (UrlBody ''http://img.example/page.html'')
      start_state)) = 400 \<and>
   storage (snd (json_upload_handler demo_env ''id-5'' 9 (UrlBody ''http://img.example/page.html'')
      start_state)) = storage start_state \<and>
   map_option content_type (fetch demo_env ''http://img.example/pic.tiff'')
     = Some (Some ''image/tiff'') \<and>
   status (fst (json_upload_handler demo_env ''id-5'' 9 (UrlBody ''http://img.example/pic.tiff'')
      start_state)) = 200"
proof -
  let ?r = "\<lparr>ok = True, content_type = Some ''text/html'', content_length = Some ''3'',
              arrayBuffer = Some [60, 112, 62]\<rparr>"
  let ?r2 = "\<lparr>ok = True, content_type = Some ''image/tiff'', content_length = Some ''3'',
              arrayBuffer = Some [73, 73, 42]\<rparr>"
  note t = media_type_gates[of "demo_file ''image/bmp''" demo_env "''id-5''" 9 start_state
      "''http://img.example/page.html''" ?r]
  note t2 = media_type_gates[of "demo_file ''image/bmp''" demo_env "''id-5''" 9 start_state
      "''http://img.example/pic.tiff''" ?r2 "''image/tiff''" "[73, 73, 42]"]
  have m: "mimetype (demo_file ''image/bmp'') \<notin> set allowedMimes"
    by (simp add: demo_file_def allowedMimes_def)
  have f: "fetch demo_env ''http://img.example/page.html'' = Some ?r" by (simp add: demo_eval)
  have c: "\<exists>ct. content_type ?r = Some ct \<and> \<not> startsWith ct ''image/''"
    by (simp add: startsWith_def)
  from t[THEN conjunct1] m
  have 1: "multipart_route demo_env ''id-5'' 9 (Some (demo_file ''image/bmp'')) start_state =
     (Inl (FileFilterError ''Invalid file type. Only JPEG, PNG, GIF, and WebP are allowed.''),
      start_state)"
    by blast
  from t[THEN conjunct2, THEN conjunct1] f c
  have 2: "status (fst (json_upload_handler demo_env ''id-5'' 9
      (UrlBody ''http://img.example/page.html'') start_state)) = 400 \<and>
   storage (snd (json_upload_handler demo_env ''id-5'' 9 (UrlBody ''http://img.example/page.html'')
      start_state)) = storage start_state"
    by blast
  have 3: "map_option content_type (fetch demo_env ''http://img.example/page.html'')
     = Some (Some ''text/html'')"
    using f by simp
  have f2: "fetch demo_env ''http://img.example/pic.tiff'' = Some ?r2" by (simp add: demo_eval)
  have c2: "startsWith ''image/tiff'' ''image/''" by (simp add: startsWith_def)
  have d2: "\<not> declared_too_large (content_length ?r2)"
    by (simp add: declared_too_large_def parseInt_def strip_sign_def js_whitespace_def
        is_digit_def digits_value_def digit_val_def MAX_SIZE_def)
  have l2: "length [73, 73, 42 :: byte] \<le> MAX_SIZE" by (simp add: MAX_SIZE_def)
  from t2[THEN conjunct2, THEN conjunct2] demo_url_valid f2 c2 d2 l2
  have 4: "status (fst (json_upload_handler demo_env ''id-5'' 9
      (UrlBody ''http://img.example/pic.tiff'') start_state)) = 200"
    by simp
  have 5: "map_option content_type (fetch demo_env ''http://img.example/pic.tiff'')
     = Some (Some ''image/tiff'')"
    using f2 by simp
  show ?thesis using m 1 2 3 4 5 by blast
qed

subsection \<open>Broadcast hub\<close>

lemma set_clients_add [simp]: "set (clients_add w cs) = insert w (set cs)"
  by (auto simp: clients_add_def)

lemma distinct_clients_add: "distinct cs \<Longrightarrow> distinct (clients_add w cs)"
  by (simp add: clients_add_def)

lemma json_upload_clients [simp]:
  "clients (snd (json_upload_handler e uuid now body st)) = clients st"
  by (cases body)
     (auto simp: json_upload_handler_def finish_json_upload_def storeImage_def Let_def
        split: option.splits if_splits)

lemma multipart_route_clients [simp]:
  "clients (snd (multipart_route e uuid now part st)) = clients st"
  by (auto simp: multipart_route_def multipart_upload_handler_def storeImage_def Let_def
      split: sum.splits option.splits prod.splits)

lemma clients_step:
  "set (clients (step e ev st)) =
     (case ev of
        Connection w \<Rightarrow> insert w (set (clients st))
      | Close w \<Rightarrow> set (clients st) - {w}
      | SocketError w \<Rightarrow> set (clients st) - {w}
      | _ \<Rightarrow> set (clients st))"
  by (cases ev)
     (auto simp: on_connection_def on_close_def on_error_def clients_delete_def Let_def
        split: option.splits)

lemma distinct_clients_step: "distinct (clients st) \<Longrightarrow> distinct (clients (step e ev st))"
  by (cases ev)
     (auto simp: on_connection_def on_close_def on_error_def clients_delete_def Let_def
        distinct_clients_add distinct_removeAll split: option.splits)

lemma distinct_clients_run: "distinct (clients st) \<Longrightarrow> distinct (clients (run e evs st))"
  by (induction evs arbitrary: st) (simp_all add: distinct_clients_step)

lemma quiet_step:
  assumes "getCurrentImage (storage st) = None" and "\<not> is_upload ev"
  shows "sent (step e ev st) = sent st \<and> storage (step e ev st) = storage st"
  using assms
  by (cases ev) (simp_all add: on_connection_def on_close_def on_error_def Let_def)

lemma quiet_run:
  assumes "getCurrentImage (storage st) = None" and "list_all (\<lambda>ev. \<not> is_upload ev) evs"
  shows "sent (run e evs st) = sent st \<and> storage (run e evs st) = storage st"
  using assms
proof (induction evs arbitrary: st)
  case Nil
  then show ?case by simp
next
  case (Cons ev evs)
  from Cons.prems have q: "\<not> is_upload ev" and r: "list_all (\<lambda>ev. \<not> is_upload ev) evs"
    by simp_all
  from quiet_step[OF Cons.prems(1) q]
  have s: "sent (step e ev st) = sent st" "storage (step e ev st) = storage st" by blast+
  with Cons.prems(1) have "getCurrentImage (storage (step e ev st)) = None" by simp
  from Cons.IH[OF this r] s show ?case by simp
qed

text \<open>
  Claim C7. When a socket whose \<^verbatim>\<open>readyState\<close> is \<^verbatim>\<open>OPEN\<close> connects while the store has a
  current image, the connection handler itself puts the socket in the registry and sends
  it one \<^verbatim>\<open>image_update\<close> with that image, and sends nothing to any other socket. When a
  socket connects to a store with no current image, neither the connection nor any later
  events other than uploads send it anything.
\<close>

theorem join_time_catch_up:
  "(getCurrentImage (storage st) = Some img \<and> readyState st c = OPEN \<longrightarrow>
      sent (step e (Connection c) st) c = sent st c @ [ImageUpdate img] \<and>
      c \<in> set (clients (step e (Connection c) st)) \<and>
      (\<forall>w. w \<noteq> c \<longrightarrow> sent (step e (Connection c) st) w = sent st w)) \<and>
   (getCurrentImage (storage st) = None \<and> list_all (\<lambda>ev. \<not> is_upload ev) evs \<longrightarrow>
      sent (run e (Connection c # evs) st) c = sent st c \<and>
      c \<in> set (clients (step e (Connection c) st)))"
proof (intro conjI impI allI)
  assume a: "getCurrentImage (storage st) = Some img \<and> readyState st c = OPEN"
  then show "sent (step e (Connection c) st) c = sent st c @ [ImageUpdate img]"
    by (simp add: on_connection_def ws_send_def Let_def)
  show "c \<in> set (clients (step e (Connection c) st))"
    using clients_step[of e "Connection c" st] by simp
  fix w
  assume "w \<noteq> c"
  with a show "sent (step e (Connection c) st) w = sent st w"
    by (simp add: on_connection_def ws_send_def Let_def)
next
  assume a: "getCurrentImage (storage st) = None \<and> list_all (\<lambda>ev. \<not> is_upload ev) evs"
  then have "list_all (\<lambda>ev. \<not> is_upload ev) (Connection c # evs)" by simp
  with a quiet_run[of st "Connection c # evs" e]
  show "sent (run e (Connection c # evs) st) c = sent st c" by simp
  show "c \<in> set (clients (step e (Connection c) st))"
    using clients_step[of e "Connection c" st] by simp
qed

lemmas hub_eval = on_connection_def on_close_def on_error_def clients_add_def
  clients_delete_def ws_send_def demo_events_def demo_image_def

lemma demo_after_upload:
  "getCurrentImage (storage (run demo_env
      [MultipartUpload ''id-3'' 7 (Some (demo_file ''image/png'')), SocketState 7 OPEN]
      start_state)) = Some demo_image \<and>
   readyState (run demo_env
      [MultipartUpload ''id-3'' 7 (Some (demo_file ''image/png'')), SocketState 7 OPEN]
      start_state) 7 = OPEN \<and>
   sent (run demo_env
      [MultipartUpload ''id-3'' 7 (Some (demo_file ''image/png'')), SocketState 7 OPEN]
      start_state) 7 = []"
  by (simp add: route_eval demo_eval hub_eval Let_def)

theorem join_time_catch_up_witness:
  "sent (run demo_env
      [MultipartUpload ''id-3'' 7 (Some (demo_file ''image/png'')), SocketState 7 OPEN,
       Connection 7] start_state) 7 = [ImageUpdate demo_image] \<and>
   getCurrentImage (storage start_state) = None \<and>
   sent (run demo_env [Connection 7, SocketState 7 OPEN, Message 7 (Ping 1000)] start_state) 7 = []"
proof -
  let ?st = "run demo_env
      [MultipartUpload ''id-3'' 7 (Some (demo_file ''image/png'')), SocketState 7 OPEN]
      start_state"
  let ?evs = "[SocketState 7 OPEN, Message 7 (Ping 1000)]"
  from join_time_catch_up[of ?st demo_image 7 demo_env ?evs, THEN conjunct1] demo_after_upload
  have "sent (step demo_env (Connection 7) ?st) 7 = [ImageUpdate demo_image]" by simp
  then have 1: "sent (run demo_env
      [MultipartUpload ''id-3'' 7 (Some (demo_file ''image/png'')), SocketState 7 OPEN,
       Connection 7] start_state) 7 = [ImageUpdate demo_image]"
    by simp
  have e: "getCurrentImage (storage start_state) = None"
    by (simp add: start_state_def new_storage_def getCurrentImage_def)
  have q: "list_all (\<lambda>ev. \<not> is_upload ev) ?evs" by simp
  have s0: "sent start_state 7 = []" by (simp add: start_state_def)
  from join_time_catch_up[of start_state demo_image 7 demo_env ?evs, THEN conjunct2] e q s0
  have 2: "sent (run demo_env [Connection 7, SocketState 7 OPEN, Message 7 (Ping 1000)]
      start_state) 7 = []"
    by simp
  show ?thesis using 1 e 2 by blast
qed

lemma registry_kept_step:
  assumes "c \<in> set (clients st)" and "ev \<noteq> Close c" and "ev \<noteq> SocketError c"
  shows "c \<in> set (clients (step e ev st))"
  using assms clients_step[of e ev st] by (cases ev) auto

lemma registry_kept_run:
  assumes "c \<in> set (clients st)"
    and "list_all (\<lambda>ev. ev \<noteq> Close c \<and> ev \<noteq> SocketError c) evs"
  shows "c \<in> set (clients (run e evs st))"
  using assms
proof (induction evs arbitrary: st)
  case Nil
  then show ?case by simp
next
  case (Cons ev evs)
  from Cons.prems have "c \<in> set (clients (step e ev st))"
    by (intro registry_kept_step) simp_all
  moreover from Cons.prems have "list_all (\<lambda>ev. ev \<noteq> Close c \<and> ev \<noteq> SocketError c) evs"
    by simp
  ultimately show ?case using Cons.IH by simp
qed

text \<open>
  Claim C8, as the code has it. The hub keeps no heartbeat timer. A connection stays in the
  registry through every sequence of events that holds neither its own close nor its own
  error, whatever frames it sends and however silent it is; its close and its error each
  remove it. A fan-out sends the update once to every registered connection whose
  \<^verbatim>\<open>readyState\<close> is \<^verbatim>\<open>OPEN\<close>; the registry of a running server never holds a connection
  twice.
\<close>

theorem registry_changes_only_on_close_or_error:
  "(c \<in> set (clients st) \<and> list_all (\<lambda>ev. ev \<noteq> Close c \<and> ev \<noteq> SocketError c) evs \<longrightarrow>
      c \<in> set (clients (run e evs st))) \<and>
   c \<notin> set (clients (step e (Close c) st)) \<and>
   c \<notin> set (clients (step e (SocketError c) st)) \<and>
   (distinct (clients st) \<and> c \<in> set (clients st) \<and> readyState st c = OPEN \<longrightarrow>
      sent (broadcastImageUpdate img st) c = sent st c @ [ImageUpdate img]) \<and>
   distinct (clients (run e evs start_state))"
proof (intro conjI impI)
  assume "c \<in> set (clients st) \<and> list_all (\<lambda>ev. ev \<noteq> Close c \<and> ev \<noteq> SocketError c) evs"
  then show "c \<in> set (clients (run e evs st))"
    using registry_kept_run[of c st evs e] by blast
next
  show "c \<notin> set (clients (step e (Close c) st))"
    by (simp add: on_close_def clients_delete_def)
  show "c \<notin> set (clients (step e (SocketError c) st))"
    by (simp add: on_error_def clients_delete_def)
next
  assume "distinct (clients st) \<and> c \<in> set (clients st) \<and> readyState st c = OPEN"
  then show "sent (broadcastImageUpdate img st) c = sent st c @ [ImageUpdate img]"
    by (simp add: broadcastImageUpdate_def sent_broadcast_to)
next
  have "distinct (clients start_state)" by (simp add: start_state_def)
  then show "distinct (clients (run e evs start_state))" by (rule distinct_clients_run)
qed

text \<open>Socket 7 sends a ping and is sent no pong; socket 8 never sends anything; both are
  still registered at the next upload and both are sent its update.\<close>

theorem ping_unanswered_and_silent_socket_kept:
  "sent (run demo_env (take 5 demo_events) start_state) 7 = [] \<and>
   clients (run demo_env demo_events start_state) = [7, 8] \<and>
   sent (run demo_env demo_events start_state) 7 = [ImageUpdate demo_image] \<and>
   sent (run demo_env demo_events start_state) 8 = [ImageUpdate demo_image]"
  by (simp add: route_eval demo_eval hub_eval Let_def)

theorem registry_changes_only_on_close_or_error_witness:
  "8 \<in> set (clients (run demo_env (take 4 demo_events) start_state)) \<and>
   list_all (\<lambda>ev. ev \<noteq> Close 8 \<and> ev \<noteq> SocketError 8) (drop 4 demo_events) \<and>
   8 \<in> set (clients (run demo_env (drop 4 demo_events)
          (run demo_env (take 4 demo_events) start_state))) \<and>
   distinct (clients (run demo_env (take 4 demo_events) start_state)) \<and>
   readyState (run demo_env (take 4 demo_events) start_state) 8 = OPEN \<and>
   sent (broadcastImageUpdate demo_image (run demo_env (take 4 demo_events) start_state)) 8
     = [ImageUpdate demo_image]"
proof -
  let ?st = "run demo_env (take 4 demo_events) start_state"
  let ?evs = "drop 4 demo_events"
  note t = registry_changes_only_on_close_or_error[of 8 ?st ?evs demo_env demo_image]
  note t' = registry_changes_only_on_close_or_error[of 8 ?st "take 4 demo_events" demo_env
      demo_image]
  have st: "clients ?st = [7, 8] \<and> readyState ?st 8 = OPEN \<and> sent ?st 8 = []"
    by (simp add: route_eval demo_eval hub_eval Let_def)
  then have m: "8 \<in> set (clients ?st)"
    and r: "readyState ?st 8 = OPEN" and s: "sent ?st 8 = []"
    by simp_all
  from t'[THEN conjunct2, THEN conjunct2, THEN conjunct2, THEN conjunct2]
  have d: "distinct (clients ?st)" .
  have q: "list_all (\<lambda>ev. ev \<noteq> Close 8 \<and> ev \<noteq> SocketError 8) ?evs"
    by (simp add: demo_events_def)
  from t[THEN conjunct1] m q have 1: "8 \<in> set (clients (run demo_env ?evs ?st))" by blast
  from t[THEN conjunct2, THEN conjunct2, THEN conjunct2, THEN conjunct1] d m r s
  have 2: "sent (broadcastImageUpdate demo_image ?st) 8 = [ImageUpdate demo_image]" by simp
  show ?thesis using m q 1 d r 2 by blast
qed

subsection \<open>IPv4 literals\<close>

lemma digit_char_cases:
  assumes "d < 10"
  shows "digit_char d \<in> set ''0123456789'' \<and> digit_val (digit_char d) = d"
proof -
  from assms have "d \<in> {0, 1, 2, 3, 4, 5, 6, 7, 8, 9}" by auto
  then show ?thesis
    by (auto simp: digit_char_def digit_val_def)
qed

lemma is_digit_digit_char: "d < 10 \<Longrightarrow> is_digit (digit_char d)"
  using digit_char_cases[of d] by (simp add: is_digit_def)

lemma digit_val_digit_char: "d < 10 \<Longrightarrow> digit_val (digit_char d) = d"
  using digit_char_cases[of d] by simp

lemma nat_toString_digits: "list_all is_digit (nat_toString n)"
proof (induction n rule: nat_toString.induct)
  case (1 n)
  show ?case
  proof (cases "n < 10")
    case True
    then show ?thesis by (simp add: nat_toString.simps[of n] is_digit_digit_char)
  next
    case False
    with 1 show ?thesis
      by (simp add: nat_toString.simps[of n] is_digit_digit_char)
  qed
qed

lemma nat_toString_nonempty: "nat_toString n \<noteq> []"
  by (simp add: nat_toString.simps[of n])

lemma foldl_digits_snoc:
  "foldl (\<lambda>acc c. acc * 10 + digit_val c) 0 (xs @ [x]) =
     foldl (\<lambda>acc c. acc * 10 + digit_val c) 0 xs * 10 + digit_val x"
  by simp

lemma digits_value_nat_toString: "digits_value (nat_toString n) = n"
proof (induction n rule: nat_toString.induct)
  case (1 n)
  show ?case
  proof (cases "n < 10")
    case True
    then show ?thesis
      by (simp add: nat_toString.simps[of n] digits_value_def digit_val_digit_char)
  next
    case False
    with 1 have "digits_value (nat_toString (n div 10)) = n div 10" by simp
    with False show ?thesis
      by (simp add: nat_toString.simps[of n] digits_value_def digit_val_digit_char)
  qed
qed

lemma is_digit_not_special:
  "is_digit c \<Longrightarrow> c \<noteq> CHR ''.'' \<and> c \<noteq> CHR ''-'' \<and> c \<noteq> CHR ''+'' \<and> \<not> js_whitespace c"
  by (auto simp: is_digit_def js_whitespace_def)

lemma parseInt10_digits:
  assumes "s \<noteq> []" and "list_all is_digit s"
  shows "parseInt10 s = Some (int (digits_value s))"
proof -
  from assms obtain c r where s: "s = c # r" by (cases s) auto
  with assms have c: "is_digit c" by simp
  with is_digit_not_special[OF c] s have d: "dropWhile js_whitespace s = s" by simp
  from is_digit_not_special[OF c] s have g: "strip_sign s = (False, s)"
    by (simp add: strip_sign_def)
  from assms(2) have t: "takeWhile is_digit s = s"
    by (simp add: list_all_iff)
  from assms(1) show ?thesis
    by (simp add: parseInt10_def d g t)
qed

lemma ipv4_part_ok_nat_toString: "n \<le> 255 \<Longrightarrow> ipv4_part_ok (nat_toString n)"
  by (simp add: ipv4_part_ok_def parseInt10_digits nat_toString_nonempty nat_toString_digits
      digits_value_nat_toString int_toString_def)

lemma js_Number_nat_toString: "js_Number (nat_toString n) = Some (int n)"
  by (simp add: js_Number_def nat_toString_nonempty nat_toString_digits digits_value_nat_toString)

lemma ipv4_part_ok_is_octet:
  assumes "ipv4_part_ok p"
  shows "\<exists>n \<le> 255. p = nat_toString n"
proof -
  from assms obtain num where "0 \<le> num" "num \<le> 255" "p = int_toString num"
    by (auto simp: ipv4_part_ok_def split: option.splits)
  then have "nat num \<le> 255" and "p = nat_toString (nat num)"
    by (simp_all add: int_toString_def)
  then show ?thesis by blast
qed

lemma split_on_no_sep: "sep \<notin> set x \<Longrightarrow> split_on sep x = [x]"
  by (induction x) auto

lemma split_on_append: "sep \<notin> set x \<Longrightarrow> split_on sep (x @ sep # y) = x # split_on sep y"
  by (induction x) auto

lemma dot_not_in_nat_toString: "CHR ''.'' \<notin> set (nat_toString n)"
  using nat_toString_digits[of n] is_digit_not_special by (auto simp: list_all_iff)

lemma split_dotted_quad:
  "split_on CHR ''.'' (dotted_quad a b c d) =
     [nat_toString a, nat_toString b, nat_toString c, nat_toString d]"
  by (simp add: dotted_quad_def split_on_append split_on_no_sep dot_not_in_nat_toString)

lemma split_on_join4:
  "split_on sep s = [p0, p1, p2, p3] \<Longrightarrow> s = p0 @ sep # p1 @ sep # p2 @ sep # p3"
proof -
  have join: "\<And>ps. split_on sep s = ps \<Longrightarrow>
      foldr (\<lambda>p acc. p @ sep # acc) (butlast ps) (last ps) = s"
  proof (induction s)
    case Nil
    then show ?case by auto
  next
    case (Cons x xs)
    show ?case
    proof (cases "x = sep")
      case True
      with Cons.prems have ps: "ps = [] # split_on sep xs" by simp
      have "split_on sep xs \<noteq> []" by (cases xs) (auto split: list.splits)
      with ps Cons.IH[OF refl] True show ?thesis by simp
    next
      case False
      obtain q qs where q: "split_on sep xs = q # qs"
        by (cases "split_on sep xs") (cases xs; auto split: list.splits if_splits)+
      with False Cons.prems have ps: "ps = (x # q) # qs" by simp
      from Cons.IH[OF q] have "foldr (\<lambda>p acc. p @ sep # acc) (butlast (q # qs)) (last (q # qs)) = xs" .
      with ps show ?thesis by (cases qs) auto
    qed
  qed
  assume "split_on sep s = [p0, p1, p2, p3]"
  from join[OF this] show ?thesis by simp
qed


text \<open>
  The IPv4 side of the classifier. Every dotted quad of four numbers up to 255, written in
  canonical decimal, is an IPv4 literal, and it is private exactly when its first two
  octets lie in \<^verbatim>\<open>127/8\<close>, \<^verbatim>\<open>10/8\<close>, \<^verbatim>\<open>172.16/12\<close>, \<^verbatim>\<open>192.168/16\<close>, \<^verbatim>\<open>169.254/16\<close> or
  \<^verbatim>\<open>0/8\<close>. Conversely, the strict parse accepts nothing else: a string that passes
  \<open>isIPv4\<close> is such a dotted quad.
\<close>

theorem ipv4_literals_classified:
  "(a \<le> 255 \<and> b \<le> 255 \<and> c \<le> 255 \<and> d \<le> 255 \<longrightarrow>
      isIPv4 (dotted_quad a b c d) \<and>
      isPrivateIP (dotted_quad a b c d) = ipv4_private_block a b) \<and>
   (isIPv4 s \<longrightarrow>
      (\<exists>a b c d. a \<le> 255 \<and> b \<le> 255 \<and> c \<le> 255 \<and> d \<le> 255 \<and> s = dotted_quad a b c d))"
proof (intro conjI impI)
  assume r: "a \<le> 255 \<and> b \<le> 255 \<and> c \<le> 255 \<and> d \<le> 255"
  then show v4: "isIPv4 (dotted_quad a b c d)"
    by (simp add: isIPv4_def split_dotted_quad ipv4_part_ok_nat_toString)
  have "isPrivateIP (dotted_quad a b c d) =
          (a = 127 \<or> a = 10 \<or> (a = 172 \<and> 16 \<le> b \<and> b \<le> 31) \<or> (a = 192 \<and> b = 168) \<or>
           (a = 169 \<and> b = 254) \<or> a = 0)"
    unfolding isPrivateIP_def using v4
    by (simp add: split_dotted_quad js_Number_nat_toString Let_def)
  then show "isPrivateIP (dotted_quad a b c d) = ipv4_private_block a b"
    by (simp add: ipv4_private_block_def)
next
  assume v4: "isIPv4 s"
  then have l: "length (split_on CHR ''.'' s) = 4"
    and ok: "list_all ipv4_part_ok (split_on CHR ''.'' s)"
    by (auto simp: isIPv4_def Let_def split: if_splits)
  from l obtain p0 p1 p2 p3 where ps: "split_on CHR ''.'' s = [p0, p1, p2, p3]"
    by (auto simp: length_Suc_conv numeral_eq_Suc)
  from ok ps have "ipv4_part_ok p0" "ipv4_part_ok p1" "ipv4_part_ok p2" "ipv4_part_ok p3"
    by simp_all
  then obtain a b c d where n: "a \<le> 255" "b \<le> 255" "c \<le> 255" "d \<le> 255"
    and p: "p0 = nat_toString a" "p1 = nat_toString b" "p2 = nat_toString c" "p3 = nat_toString d"
    using ipv4_part_ok_is_octet by metis
  from split_on_join4[OF ps] p have "s = dotted_quad a b c d"
    by (simp add: dotted_quad_def)
  with n show "\<exists>a b c d. a \<le> 255 \<and> b \<le> 255 \<and> c \<le> 255 \<and> d \<le> 255 \<and> s = dotted_quad a b c d"
    by blast
qed

lemma dotted_quad_examples:
  "dotted_quad 10 0 0 5 = ''10.0.0.5''" "dotted_quad 93 184 216 34 = ''93.184.216.34''"
  by (simp_all add: dotted_quad_def nat_toString.simps digit_char_def)

theorem ipv4_literals_classified_witness:
  "isIPv4 ''10.0.0.5'' \<and> isPrivateIP ''10.0.0.5'' \<and>
   isIPv4 ''93.184.216.34'' \<and> \<not> isPrivateIP ''93.184.216.34'' \<and>
   (\<exists>a b c d. a \<le> 255 \<and> b \<le> 255 \<and> c \<le> 255 \<and> d \<le> 255 \<and> ''10.0.0.5'' = dotted_quad a b c d)"
proof -
  have b1: "ipv4_private_block 10 0" and b2: "\<not> ipv4_private_block 93 184"
    by (simp_all add: ipv4_private_block_def)
  from ipv4_literals_classified[of 10 0 0 5 "''10.0.0.5''", THEN conjunct1] b1
  have 1: "isIPv4 ''10.0.0.5'' \<and> isPrivateIP ''10.0.0.5''"
    by (simp add: dotted_quad_examples)
  from ipv4_literals_classified[of 93 184 216 34 "''10.0.0.5''", THEN conjunct1] b2
  have 2: "isIPv4 ''93.184.216.34'' \<and> \<not> isPrivateIP ''93.184.216.34''"
    by (simp add: dotted_quad_examples)
  from ipv4_literals_classified[of 10 0 0 5 "''10.0.0.5''", THEN conjunct2] 1
  have 3: "\<exists>a b c d. a \<le> 255 \<and> b \<le> 255 \<and> c \<le> 255 \<and> d \<le> 255 \<and> ''10.0.0.5'' = dotted_quad a b c d"
    by blast
  show ?thesis using 1 2 3 by blast
qed

subsection \<open>Size ceiling of the URL and upload routes\<close>

text \<open>
  The size ceiling on the two routes that have one. A fetched body longer than 10 MiB is
  answered 400 and nothing is stored, whatever length the response declared; an upload of
  an allowed type longer than 10 MiB is stopped by the middleware with
  \<^verbatim>\<open>LIMIT_FILE_SIZE\<close> and the state is untouched. A body of exactly 10 MiB passes both.
\<close>

theorem size_ceiling_on_url_and_upload:
  "(fetch e url = Some response \<and> arrayBuffer response = Some bytes \<and> length bytes > MAX_SIZE \<longrightarrow>
      status (fst (json_upload_handler e uuid now (UrlBody url) st)) = 400 \<and>
      storage (snd (json_upload_handler e uuid now (UrlBody url) st)) = storage st) \<and>
   (mimetype f \<in> set allowedMimes \<and> length (buffer f) > MAX_SIZE \<longrightarrow>
      multipart_route e uuid now (Some f) st = (Inl LIMIT_FILE_SIZE, st)) \<and>
   (mimetype f \<in> set allowedMimes \<and> length (buffer f) = MAX_SIZE \<longrightarrow>
      (\<exists>res. fst (multipart_route e uuid now (Some f) st) = Inr res \<and> status res = 200)) \<and>
   (valid (validateImageUrl e url) \<and> fetch e url = Some response \<and> ok response \<and>
    content_type response = Some ct \<and> startsWith ct ''image/'' \<and>
    content_length response = None \<and> arrayBuffer response = Some bytes \<and>
    length bytes = MAX_SIZE \<longrightarrow>
      status (fst (json_upload_handler e uuid now (UrlBody url) st)) = 200)"
proof (intro conjI impI)
  assume a: "fetch e url = Some response \<and> arrayBuffer response = Some bytes \<and>
    length bytes > MAX_SIZE"
  then show "status (fst (json_upload_handler e uuid now (UrlBody url) st)) = 400"
    and "storage (snd (json_upload_handler e uuid now (UrlBody url) st)) = storage st"
    by (simp_all add: json_upload_handler_def Let_def fail_response_def split: option.splits)
next
  assume "mimetype f \<in> set allowedMimes \<and> length (buffer f) > MAX_SIZE"
  then show "multipart_route e uuid now (Some f) st = (Inl LIMIT_FILE_SIZE, st)"
    by (simp add: multipart_route_def upload_single_def fileFilter_def)
next
  assume "mimetype f \<in> set allowedMimes \<and> length (buffer f) = MAX_SIZE"
  then show "\<exists>res. fst (multipart_route e uuid now (Some f) st) = Inr res \<and> status res = 200"
    by (simp add: multipart_route_def upload_single_def fileFilter_def
        multipart_upload_handler_def storeImage_def Let_def ok_response_def)
next
  assume a: "valid (validateImageUrl e url) \<and> fetch e url = Some response \<and> ok response \<and>
    content_type response = Some ct \<and> startsWith ct ''image/'' \<and>
    content_length response = None \<and> arrayBuffer response = Some bytes \<and>
    length bytes = MAX_SIZE"
  then have "\<not> declared_too_large (content_length response)" and "length bytes \<le> MAX_SIZE"
    by (simp_all add: declared_too_large_def)
  with a have "json_upload_handler e uuid now (UrlBody url) st =
           finish_json_upload e uuid now ''url'' bytes
             (js_or (Some (last (split_on CHR ''/'' url))) ''url-image'')
             (js_or (nth_opt (split_on CHR ''/'' ct) 1) ''unknown'')
             (st\<lparr>fetched := fetched st @ [url]\<rparr>)"
    using url_upload_passes[of e url response ct bytes uuid now st] by blast
  then show "status (fst (json_upload_handler e uuid now (UrlBody url) st)) = 200" by simp
qed

theorem size_ceiling_on_url_and_upload_witness:
  "length oversized_buffer > MAX_SIZE \<and>
   map_option arrayBuffer (fetch oversized_env ''http://img.example/pic.tiff'')
     = Some (Some oversized_buffer) \<and>
   status (fst (json_upload_handler oversized_env ''id-6'' 9
     (UrlBody ''http://img.example/pic.tiff'') start_state)) = 400 \<and>
   multipart_route demo_env ''id-6'' 9
     (Some \<lparr>originalname = ''big.png'', mimetype = ''image/png'', buffer = oversized_buffer\<rparr>)
     start_state = (Inl LIMIT_FILE_SIZE, start_state)"
proof -
  let ?r = "\<lparr>ok = True, content_type = Some ''image/tiff'', content_length = None,
              arrayBuffer = Some oversized_buffer\<rparr>"
  let ?f = "\<lparr>originalname = ''big.png'', mimetype = ''image/png'', buffer = oversized_buffer\<rparr>"
  have l: "length oversized_buffer > MAX_SIZE" by (simp add: length_oversized_buffer)
  have f: "fetch oversized_env ''http://img.example/pic.tiff'' = Some ?r"
    by (simp add: oversized_env_def)
  have m: "mimetype ?f \<in> set allowedMimes" by (simp add: allowedMimes_def)
  from size_ceiling_on_url_and_upload[of oversized_env "''http://img.example/pic.tiff''" ?r
      oversized_buffer "''id-6''" 9 start_state ?f, THEN conjunct1] f l
  have 1: "status (fst (json_upload_handler oversized_env ''id-6'' 9
     (UrlBody ''http://img.example/pic.tiff'') start_state)) = 400"
    by simp
  from size_ceiling_on_url_and_upload[of demo_env "''http://img.example/pic.tiff''" ?r
      oversized_buffer "''id-6''" 9 start_state ?f, THEN conjunct2, THEN conjunct1] m l
  have 2: "multipart_route demo_env ''id-6'' 9 (Some ?f) start_state = (Inl LIMIT_FILE_SIZE, start_state)"
    by simp
  have 3: "map_option arrayBuffer (fetch oversized_env ''http://img.example/pic.tiff'')
     = Some (Some oversized_buffer)"
    using f by simp
  show ?thesis using l 1 2 3 by blast
qed

end
